theory Spec2Isabelle
  imports Main "HOL-Library.Extended_Nat"
begin

section \<open>Wire protocol\<close>

text \<open>
  The envelopes of \<^verbatim>\<open>broadcast_manager.ts\<close> and \<^verbatim>\<open>client.ts\<close>. The source builds
  objects \<^verbatim>\<open>{ t, c, e, d, r, id }\<close> and exchanges them as JSON text; the model keeps the
  object and leaves the text out. The payload \<^verbatim>\<open>d\<close> is opaque (\<^verbatim>\<open>unknown\<close> in the
  source) and is kept as a string. Strings are lists of 8-bit characters here, the
  source's are UTF-16 code units.
\<close>

type_synonym payload = string

text \<open>Server to client: welcome, ok, err, msg, ping.\<close>

datatype server_frame =
    Welcome string
  | Ok string
  | Err string string
  | Msg string string payload
  | Ping

text \<open>Client to server: sub, unsub, msg, pong.\<close>

datatype client_frame =
    Sub string
  | Unsub string
  | MsgIn string string payload
  | Pong

text \<open>
  A function of the source either returns or throws; what it wrote to the state before it
  threw stays written, so both results carry the state.
\<close>

datatype 'a outcome = Done 'a | Thrown 'a

fun state_of :: "'a outcome \<Rightarrow> 'a" where
  "state_of (Done s) = s"
| "state_of (Thrown s) = s"

text \<open>\<^verbatim>\<open>try { ... } catch {}\<close>: the exception is swallowed, the state is kept.\<close>

fun catch_all :: "'a outcome \<Rightarrow> 'a outcome" where
  "catch_all (Done s) = Done s"
| "catch_all (Thrown s) = Done s"

text \<open>
  \<^verbatim>\<open>Set<string>\<close> iterates in insertion order: a list without duplicates, new members
  at the end.
\<close>

definition set_add :: "'a \<Rightarrow> 'a list \<Rightarrow> 'a list" where
  "set_add x xs = (if x \<in> set xs then xs else xs @ [x])"

definition set_delete :: "'a \<Rightarrow> 'a list \<Rightarrow> 'a list" where
  "set_delete x xs = removeAll x xs"

text \<open>
  \<^verbatim>\<open>Map<string, V>\<close> where the iteration order matters (the client's subscriptions): an
  association list, a new key at the end, an existing key updated in place.
\<close>

fun map_get :: "('k \<times> 'v) list \<Rightarrow> 'k \<Rightarrow> 'v option" where
  "map_get [] k = None"
| "map_get ((k', v) # kvs) k = (if k' = k then Some v else map_get kvs k)"

fun map_set :: "'k \<Rightarrow> 'v \<Rightarrow> ('k \<times> 'v) list \<Rightarrow> ('k \<times> 'v) list" where
  "map_set k v [] = [(k, v)]"
| "map_set k v ((k', v') # kvs) =
     (if k' = k then (k, v) # kvs else (k', v') # map_set k v kvs)"

definition map_delete :: "'k \<Rightarrow> ('k \<times> 'v) list \<Rightarrow> ('k \<times> 'v) list" where
  "map_delete k kvs = filter (\<lambda>kv. fst kv \<noteq> k) kvs"

definition map_keys :: "('k \<times> 'v) list \<Rightarrow> 'k list" where
  "map_keys kvs = map fst kvs"

section \<open>The browser client (\<^verbatim>\<open>client.ts\<close>)\<close>

text \<open>
  \<^verbatim>\<open>WebSocket.readyState\<close>. The field \<^verbatim>\<open>ws\<close> of the client is \<^verbatim>\<open>null\<close> after
  \<^verbatim>\<open>close()\<close>: an option.
\<close>

datatype readyState = CONNECTING | OPEN | CLOSING | CLOSED

text \<open>
  The lifecycle events the client emits with \<^verbatim>\<open>emit(event, data)\<close>: \<^verbatim>\<open>connected\<close>,
  \<^verbatim>\<open>disconnected\<close>, \<^verbatim>\<open>reconnecting\<close> (attempt), \<^verbatim>\<open>subscribed\<close> (channel),
  \<^verbatim>\<open>error\<close> (channel, reason). The listeners are the application's code; the model
  records each call of \<^verbatim>\<open>emit\<close> in the order it is made.
\<close>

datatype client_event =
    EvConnected
  | EvDisconnected
  | EvReconnecting nat
  | EvSubscribed string
  | EvError string string

text \<open>
  A \<^verbatim>\<open>Subscription\<close>: its channel and its listeners, \<^verbatim>\<open>Map<string, Set<Callback>>\<close>.
  A callback is named by a number. The closures \<^verbatim>\<open>sendFn\<close> and \<^verbatim>\<open>leaveFn\<close> are the
  client's \<^verbatim>\<open>send\<close> and the deletion of the channel from the client's map; the
  methods that call them take the client as an argument.
\<close>

record Subscription =
  sub_channel :: string
  listeners :: "(string \<times> nat list) list"

text \<open>
  The \<^verbatim>\<open>Broadcast\<close> object. \<^verbatim>\<open>reconnectAttempt\<close> and \<^verbatim>\<open>maxReconnectAttempts\<close> can be
  \<^verbatim>\<open>Infinity\<close> in the source (\<^verbatim>\<open>close()\<close> sets the one, the default of the other):
  extended naturals. \<^verbatim>\<open>reconnectTimer\<close> holds the delay, in milliseconds, of the
  pending timer. Three fields are the model's record of what the object did: \<^verbatim>\<open>sent\<close>,
  the frames handed to an open socket, \<^verbatim>\<open>emitted\<close>, the calls of \<^verbatim>\<open>emit\<close>, and
  \<^verbatim>\<open>dispatched\<close>, the listener calls of \<^verbatim>\<open>_dispatch\<close>.
\<close>

record Broadcast =
  bc_ws :: "readyState option"
  maxReconnectAttempts :: enat
  reconnectAttempt :: enat
  reconnectTimer :: "nat option"
  subscriptions :: "(string \<times> Subscription) list"
  queue :: "client_frame list"
  bc_connected :: bool
  bc_clientId :: "string option"
  sent :: "client_frame list"
  emitted :: "client_event list"
  dispatched :: "(nat \<times> payload) list"

definition emit :: "Broadcast \<Rightarrow> client_event \<Rightarrow> Broadcast" where
  "emit b ev = b\<lparr>emitted := emitted b @ [ev]\<rparr>"

text \<open>
  \<^verbatim>\<open>WebSocket.send\<close> of the browser: it throws while the socket is connecting, transmits
  when it is open, and discards the data without an error once the socket is closing or
  closed. On \<^verbatim>\<open>ws = null\<close> the call \<^verbatim>\<open>this.ws!.send\<close> throws a TypeError.
\<close>

definition WebSocket_send :: "Broadcast \<Rightarrow> client_frame \<Rightarrow> Broadcast outcome" where
  "WebSocket_send b raw =
     (case bc_ws b of
        None \<Rightarrow> Thrown b
      | Some CONNECTING \<Rightarrow> Thrown b
      | Some OPEN \<Rightarrow> Done (b\<lparr>sent := sent b @ [raw]\<rparr>)
      | Some _ \<Rightarrow> Done b)"

text \<open>
  \<^verbatim>\<open>rawSend\<close>: \<^verbatim>\<open>if (this.ws?.readyState === WebSocket.OPEN) this.ws.send(...)\<close>.
\<close>

definition rawSend :: "Broadcast \<Rightarrow> client_frame \<Rightarrow> Broadcast" where
  "rawSend b msg = (if bc_ws b = Some OPEN then b\<lparr>sent := sent b @ [msg]\<rparr> else b)"

text \<open>\<^verbatim>\<open>send\<close>: transmit when connected and open, else push on the queue.\<close>

definition send :: "Broadcast \<Rightarrow> client_frame \<Rightarrow> Broadcast" where
  "send b msg =
     (if bc_connected b \<and> bc_ws b = Some OPEN then b\<lparr>sent := sent b @ [msg]\<rparr>
      else b\<lparr>queue := queue b @ [msg]\<rparr>)"

text \<open>
  \<^verbatim>\<open>scheduleReconnect\<close>. The guard \<^verbatim>\<open>reconnectAttempt >= maxReconnectAttempts\<close> returns
  when the counter is \<^verbatim>\<open>Infinity\<close>, so the counter that is incremented is finite.
  \<^verbatim>\<open>Math.pow(2, n)\<close> is exact in floating point up to its overflow to \<^verbatim>\<open>Infinity\<close>,
  where \<^verbatim>\<open>Math.min\<close> still returns 30000: the natural numbers give the same delay.
\<close>

definition scheduleReconnect :: "Broadcast \<Rightarrow> Broadcast" where
  "scheduleReconnect b =
     (if reconnectAttempt b \<ge> maxReconnectAttempts b then b
      else
        (case reconnectAttempt b of
           \<infinity> \<Rightarrow> b
         | enat n \<Rightarrow>
             (let b1 = b\<lparr>reconnectAttempt := enat (n + 1)\<rparr>;
                  attempt = n + 1;
                  delay = min (1000 * 2 ^ (attempt - 1)) 30000;
                  b2 = emit b1 (EvReconnecting attempt)
              in b2\<lparr>reconnectTimer := Some delay\<rparr>)))"

text \<open>The delay that \<^verbatim>\<open>scheduleReconnect\<close> computes for an attempt number.\<close>

definition backoff_delay :: "nat \<Rightarrow> nat" where
  "backoff_delay attempt = min (1000 * 2 ^ (attempt - 1)) 30000"

text \<open>
  \<^verbatim>\<open>connect\<close> makes a new socket, which starts connecting, and installs the four
  handlers below on it. The timer that called it has fired.
\<close>

definition connect :: "Broadcast \<Rightarrow> Broadcast" where
  "connect b = b\<lparr>bc_ws := Some CONNECTING, reconnectTimer := None\<rparr>"

text \<open>The constructor: the options, then \<^verbatim>\<open>connect()\<close>.\<close>

definition Broadcast_new :: "enat \<Rightarrow> Broadcast" where
  "Broadcast_new maxAttempts =
     connect \<lparr>bc_ws = None, maxReconnectAttempts = maxAttempts, reconnectAttempt = 0,
       reconnectTimer = None, subscriptions = [], queue = [], bc_connected = False,
       bc_clientId = None, sent = [], emitted = [], dispatched = []\<rparr>"

definition onopen :: "Broadcast \<Rightarrow> Broadcast" where
  "onopen b = emit (b\<lparr>bc_connected := True, reconnectAttempt := 0\<rparr>) EvConnected"

definition onclose :: "Broadcast \<Rightarrow> Broadcast" where
  "onclose b =
     (let wasConnected = bc_connected b;
          b1 = b\<lparr>bc_connected := False\<rparr>;
          b2 = (if wasConnected then emit b1 EvDisconnected else b1)
      in scheduleReconnect b2)"

text \<open>\<^verbatim>\<open>onerror\<close>: \<^verbatim>\<open>this.ws?.close()\<close>, the socket starts closing.\<close>

definition onerror :: "Broadcast \<Rightarrow> Broadcast" where
  "onerror b = b\<lparr>bc_ws := map_option (\<lambda>_. CLOSING) (bc_ws b)\<rparr>"

text \<open>\<^verbatim>\<open>close()\<close>: no reconnection after it.\<close>

definition close :: "Broadcast \<Rightarrow> Broadcast" where
  "close b = b\<lparr>reconnectAttempt := \<infinity>, reconnectTimer := None, bc_ws := None\<rparr>"

text \<open>
  The browser's side of the socket: it becomes open and \<^verbatim>\<open>onopen\<close> runs; it becomes
  closed and \<^verbatim>\<open>onclose\<close> runs.
\<close>

definition socket_opened :: "Broadcast \<Rightarrow> Broadcast" where
  "socket_opened b = onopen (b\<lparr>bc_ws := map_option (\<lambda>_. OPEN) (bc_ws b)\<rparr>)"

definition socket_closed :: "Broadcast \<Rightarrow> Broadcast" where
  "socket_closed b = onclose (b\<lparr>bc_ws := map_option (\<lambda>_. CLOSED) (bc_ws b)\<rparr>)"

text \<open>
  \<^verbatim>\<open>subscribe\<close>: the existing subscription if there is one; else a new one is recorded,
  and \<^verbatim>\<open>sub\<close> is sent with \<^verbatim>\<open>rawSend\<close> when connected.
\<close>

definition subscribe :: "Broadcast \<Rightarrow> string \<Rightarrow> Broadcast \<times> Subscription" where
  "subscribe b ch =
     (case map_get (subscriptions b) ch of
        Some existing \<Rightarrow> (b, existing)
      | None \<Rightarrow>
          (let sub = \<lparr>sub_channel = ch, listeners = []\<rparr>;
               b1 = b\<lparr>subscriptions := map_set ch sub (subscriptions b)\<rparr>;
               b2 = (if bc_connected b1 then rawSend b1 (Sub ch) else b1)
           in (b2, sub)))"

text \<open>\<^verbatim>\<open>Subscription.on\<close>, \<^verbatim>\<open>Subscription.send\<close>, \<^verbatim>\<open>Subscription.leave\<close>.\<close>

definition Subscription_on :: "Subscription \<Rightarrow> string \<Rightarrow> nat \<Rightarrow> Subscription" where
  "Subscription_on s event callback =
     (case map_get (listeners s) event of
        None \<Rightarrow> s\<lparr>listeners := map_set event [callback] (listeners s)\<rparr>
      | Some cbs \<Rightarrow> s\<lparr>listeners := map_set event (set_add callback cbs) (listeners s)\<rparr>)"

definition Subscription_send :: "Broadcast \<Rightarrow> Subscription \<Rightarrow> string \<Rightarrow> payload \<Rightarrow> Broadcast" where
  "Subscription_send b s event data = send b (MsgIn (sub_channel s) event data)"

text \<open>
  A call of \<^verbatim>\<open>on\<close> on the subscription that the client holds for a channel: the object in
  the client's map is the object the caller holds, so the map sees the new listener.
\<close>

definition on_channel :: "Broadcast \<Rightarrow> string \<Rightarrow> string \<Rightarrow> nat \<Rightarrow> Broadcast" where
  "on_channel b ch event callback =
     (case map_get (subscriptions b) ch of
        None \<Rightarrow> b
      | Some s \<Rightarrow> b\<lparr>subscriptions := map_set ch (Subscription_on s event callback) (subscriptions b)\<rparr>)"

text \<open>
  \<^verbatim>\<open>leave\<close>: \<^verbatim>\<open>sendFn({ t: 'unsub', c })\<close>, then \<^verbatim>\<open>listeners.clear()\<close>, then
  \<^verbatim>\<open>leaveFn()\<close>, which deletes the channel from the client's map. The result is the
  client and the subscription object after the call.
\<close>

definition leave :: "Broadcast \<Rightarrow> Subscription \<Rightarrow> Broadcast \<times> Subscription" where
  "leave b s =
     (let b1 = send b (Unsub (sub_channel s));
          s1 = s\<lparr>listeners := []\<rparr>;
          b2 = b1\<lparr>subscriptions := map_delete (sub_channel s) (subscriptions b1)\<rparr>
      in (b2, s1))"

text \<open>\<^verbatim>\<open>_dispatch\<close>: the listeners of the event, each called with the data.\<close>

definition dispatch :: "Subscription \<Rightarrow> string \<Rightarrow> payload \<Rightarrow> (nat \<times> payload) list" where
  "dispatch s event data =
     (case map_get (listeners s) event of
        None \<Rightarrow> []
      | Some cbs \<Rightarrow> map (\<lambda>cb. (cb, data)) cbs)"

text \<open>The flush loop of the welcome case: \<^verbatim>\<open>for (const raw of this.queue) this.ws!.send(raw)\<close>.\<close>

fun flush :: "client_frame list \<Rightarrow> Broadcast \<Rightarrow> Broadcast outcome" where
  "flush [] b = Done b"
| "flush (raw # raws) b =
     (case WebSocket_send b raw of
        Thrown b' \<Rightarrow> Thrown b'
      | Done b' \<Rightarrow> flush raws b')"

text \<open>\<^verbatim>\<open>handleMessage\<close> of the client: the switch on the tag.\<close>

fun Broadcast_handleMessage :: "Broadcast \<Rightarrow> server_frame \<Rightarrow> Broadcast outcome" where
  "Broadcast_handleMessage b (Welcome ident) =
     (let b1 = b\<lparr>bc_clientId := Some ident\<rparr>;
          b2 = fold (\<lambda>ch acc. rawSend acc (Sub ch)) (map_keys (subscriptions b1)) b1
      in case flush (queue b2) b2 of
           Thrown b3 \<Rightarrow> Thrown b3
         | Done b3 \<Rightarrow> Done (b3\<lparr>queue := []\<rparr>))"
| "Broadcast_handleMessage b (Ok c) = Done (emit b (EvSubscribed c))"
| "Broadcast_handleMessage b (Err c r) = Done (emit b (EvError c r))"
| "Broadcast_handleMessage b (Msg c e d) =
     (case map_get (subscriptions b) c of
        None \<Rightarrow> Done b
      | Some s \<Rightarrow> Done (b\<lparr>dispatched := dispatched b @ dispatch s e d\<rparr>))"
| "Broadcast_handleMessage b Ping = Done (rawSend b Pong)"

text \<open>
  \<^verbatim>\<open>onmessage\<close>: \<^verbatim>\<open>try { handleMessage(JSON.parse(event.data)) } catch {}\<close>. The frame is
  \<open>None\<close> when the text does not parse or carries none of the five tags.
\<close>

definition onmessage :: "Broadcast \<Rightarrow> server_frame option \<Rightarrow> Broadcast" where
  "onmessage b raw =
     (case raw of
        None \<Rightarrow> b
      | Some msg \<Rightarrow> state_of (catch_all (Broadcast_handleMessage b msg)))"

section \<open>The pattern matcher (\<^verbatim>\<open>parsePattern\<close>, \<^verbatim>\<open>extractParams\<close>)\<close>

text \<open>\<^verbatim>\<open>\w\<close>: a letter, a digit or the underscore.\<close>

definition word_char :: "char \<Rightarrow> bool" where
  "word_char c \<longleftrightarrow>
     c \<in> set ''abcdefghijklmnopqrstuvwxyzABCDEFGHIJKLMNOPQRSTUVWXYZ0123456789_''"

text \<open>
  The first \<^verbatim>\<open>replace\<close> of \<^verbatim>\<open>parsePattern\<close>, with \<^verbatim>\<open>/\/\*(\w+)/\<close> and no \<^verbatim>\<open>g\<close> flag:
  the leftmost \<^verbatim>\<open>/*\<close> followed by at least one word character is replaced, with the
  longest run of word characters as the name, by \<^verbatim>\<open>/(.+)\<close>. The result is the new
  string and the names pushed (none or one).
\<close>

fun replace_wildcard :: "string \<Rightarrow> string \<times> string list" where
  "replace_wildcard (c # d # s) =
     (if c = CHR ''/'' \<and> d = CHR ''*'' \<and> takeWhile word_char s \<noteq> []
      then (''/(.+)'' @ dropWhile word_char s, [takeWhile word_char s])
      else (let (r, names) = replace_wildcard (d # s) in (c # r, names)))"
| "replace_wildcard s = (s, [])"

text \<open>
  The second \<^verbatim>\<open>replace\<close>, with \<^verbatim>\<open>/:(\w+)/g\<close>: every \<^verbatim>\<open>:\<close> followed by at least one word
  character is replaced, from left to right, by \<^verbatim>\<open>([^/]+)\<close>, and its name is pushed.
\<close>

function replace_params :: "string \<Rightarrow> string \<times> string list" where
  "replace_params [] = ([], [])"
| "replace_params (c # s) =
     (if c = CHR '':'' \<and> takeWhile word_char s \<noteq> []
      then (let (r, names) = replace_params (dropWhile word_char s)
            in (''([^/]+)'' @ r, takeWhile word_char s # names))
      else (let (r, names) = replace_params s in (c # r, names)))"
  by pat_completeness auto
termination
  by (relation "measure length") (auto simp: less_Suc_eq_le length_dropWhile_le)

section \<open>Regular expressions (\<^verbatim>\<open>new RegExp\<close>, \<^verbatim>\<open>exec\<close>)\<close>

text \<open>
  \<^verbatim>\<open>parsePattern\<close> leaves every character of the pattern that is not part of a
  \<^verbatim>\<open>:name\<close> or of the first \<^verbatim>\<open>/*name\<close> as it is, so whatever is special in a regular
  expression is special in a pattern. The expressions are modelled as JavaScript reads
  them without flags: literal characters, \<^verbatim>\<open>.\<close>, classes \<^verbatim>\<open>[...]\<close> and \<^verbatim>\<open>[^...]\<close> of
  characters, ranges and class escapes, the class escapes \<^verbatim>\<open>\d \D \w \W \s \S\<close>, the
  control escapes \<^verbatim>\<open>\t \n \v \f \r \0\<close>, an escaped character that is no letter or
  digit, the assertions \<^verbatim>\<open>^\<close>, \<^verbatim>\<open>$\<close>, \<^verbatim>\<open>\b\<close> and \<^verbatim>\<open>\B\<close>, groups \<^verbatim>\<open>(...)\<close> and
  \<^verbatim>\<open>(?:...)\<close>, alternatives, and the quantifiers \<^verbatim>\<open>* + ? {n} {n,} {n,m}\<close>, greedy or
  lazy. A brace that writes no quantifier, and a closing bracket or brace, are literal
  characters. What JavaScript rejects with a SyntaxError, and what is left out here
  (look-around, named groups, back references, the other escapes, a class escape as
  the end of a range), is \<open>None\<close>.
\<close>

definition digit_char :: "char \<Rightarrow> bool" where
  "digit_char c \<longleftrightarrow> c \<in> set ''0123456789''"

definition space_char :: "char \<Rightarrow> bool" where
  "space_char c \<longleftrightarrow>
     c \<in> {CHR 0x09, CHR 0x0A, CHR 0x0B, CHR 0x0C, CHR 0x0D, CHR 0x20, CHR 0xA0}"

text \<open>\<^verbatim>\<open>.\<close> matches every character but a line terminator.\<close>

definition dot_char :: "char \<Rightarrow> bool" where
  "dot_char c \<longleftrightarrow> c \<noteq> CHR 0x0A \<and> c \<noteq> CHR 0x0D"

datatype escape_class = Digits | Words | Spaces

fun escape_class_matches :: "escape_class \<Rightarrow> char \<Rightarrow> bool" where
  "escape_class_matches Digits c = digit_char c"
| "escape_class_matches Words c = word_char c"
| "escape_class_matches Spaces c = space_char c"

text \<open>A member of a class: a range of character codes, or a class escape or its negation.\<close>

datatype class_item = CRange char char | CEscape bool escape_class

fun class_item_matches :: "class_item \<Rightarrow> char \<Rightarrow> bool" where
  "class_item_matches (CRange lo hi) c \<longleftrightarrow>
     (of_char lo :: nat) \<le> of_char c \<and> (of_char c :: nat) \<le> of_char hi"
| "class_item_matches (CEscape negated e) c \<longleftrightarrow> escape_class_matches e c \<noteq> negated"

datatype char_set = CLit char | CAny | CClass bool "class_item list"

fun char_set_matches :: "char_set \<Rightarrow> char \<Rightarrow> bool" where
  "char_set_matches (CLit x) c \<longleftrightarrow> c = x"
| "char_set_matches CAny c \<longleftrightarrow> dot_char c"
| "char_set_matches (CClass negated items) c \<longleftrightarrow>
     list_ex (\<lambda>i. class_item_matches i c) items \<noteq> negated"

text \<open>
  An expression: a character of a set, the assertions, the empty expression, a
  sequence, an alternative, a capturing group with its number, and a repetition with
  its least and greatest count (\<open>None\<close>: no bound) and whether it is greedy.
\<close>

datatype rx =
    RChar char_set
  | RBol
  | REol
  | RWordB bool
  | REps
  | RCat rx rx
  | RAlt rx rx
  | RGroup nat rx
  | RRep nat "nat option" bool rx

subsection \<open>Reading the source text\<close>

datatype rtoken =
    TAtom char_set
  | TBol
  | TEol
  | TWordB bool
  | TOpen bool
  | TClose
  | TBar
  | TQuant nat "nat option" bool

definition nat_of_digits :: "string \<Rightarrow> nat" where
  "nat_of_digits ds = foldl (\<lambda>n c. 10 * n + (of_char c - 48)) 0 ds"

text \<open>
  The text after an opening brace: the bounds of the quantifier and the number of
  characters it takes, or \<open>None\<close> when the brace writes no quantifier.
\<close>

definition braces :: "string \<Rightarrow> (nat \<times> nat option \<times> nat) option" where
  "braces s =
     (let ds = takeWhile digit_char s; r = dropWhile digit_char s
      in if ds = [] then None
         else if take 1 r = ''}''
         then Some (nat_of_digits ds, Some (nat_of_digits ds), length ds + 1)
         else if take 1 r = '','' then
           (let ds2 = takeWhile digit_char (drop 1 r); r2 = dropWhile digit_char (drop 1 r)
            in if take 1 r2 = ''}''
               then Some (nat_of_digits ds, if ds2 = [] then None else Some (nat_of_digits ds2),
                          length ds + length ds2 + 2)
               else None)
         else None)"

definition class_escape :: "char \<Rightarrow> class_item option" where
  "class_escape e =
     (if e = CHR ''d'' then Some (CEscape False Digits)
      else if e = CHR ''D'' then Some (CEscape True Digits)
      else if e = CHR ''w'' then Some (CEscape False Words)
      else if e = CHR ''W'' then Some (CEscape True Words)
      else if e = CHR ''s'' then Some (CEscape False Spaces)
      else if e = CHR ''S'' then Some (CEscape True Spaces)
      else None)"

definition char_escape :: "char \<Rightarrow> char option" where
  "char_escape e =
     (if e = CHR ''t'' then Some (CHR 0x09)
      else if e = CHR ''n'' then Some (CHR 0x0A)
      else if e = CHR ''v'' then Some (CHR 0x0B)
      else if e = CHR ''f'' then Some (CHR 0x0C)
      else if e = CHR ''r'' then Some (CHR 0x0D)
      else if word_char e \<and> e \<noteq> CHR ''_'' then None
      else Some e)"

text \<open>\<^verbatim>\<open>\0\<close> is the character with code 0 when no digit follows it.\<close>

definition nul_escape :: "string \<Rightarrow> bool" where
  "nul_escape s \<longleftrightarrow> take 1 s = ''0'' \<and> \<not> list_ex digit_char (take 1 (drop 1 s))"

text \<open>
  One member of a class, at \<open>c # s\<close>: the member and how many characters of \<open>s\<close> it
  takes. In a class \<^verbatim>\<open>\b\<close> is the backspace.
\<close>

definition class_atom :: "char \<Rightarrow> string \<Rightarrow> (class_item \<times> nat) option" where
  "class_atom c s =
     (if c = CHR 0x5C then
        (case s of
           [] \<Rightarrow> None
         | e # _ \<Rightarrow>
             (case class_escape e of
                Some item \<Rightarrow> Some (item, 1)
              | None \<Rightarrow>
                  if e = CHR ''b'' then Some (CRange (CHR 0x08) (CHR 0x08), 1)
                  else if nul_escape s then Some (CRange (CHR 0x00) (CHR 0x00), 1)
                  else map_option (\<lambda>x. (CRange x x, 1)) (char_escape e)))
      else Some (CRange c c, 0))"

text \<open>
  The members of a class up to the closing bracket, and the number of characters read.
  A range whose ends are out of order is a SyntaxError.
\<close>

function class_items :: "string \<Rightarrow> (class_item list \<times> nat) option" where
  "class_items [] = None"
| "class_items (c # s) =
     (if c = CHR '']'' then Some ([], 1)
      else
        (case class_atom c s of
           None \<Rightarrow> None
         | Some (lo, k1) \<Rightarrow>
             if take 1 (drop k1 s) = ''-'' \<and> drop (k1 + 1) s \<noteq> [] \<and>
                take 1 (drop (k1 + 1) s) \<noteq> '']''
             then
               (case class_atom (hd (drop (k1 + 1) s)) (drop (k1 + 2) s) of
                  None \<Rightarrow> None
                | Some (hi, k2) \<Rightarrow>
                    (case (lo, hi) of
                       (CRange a _, CRange b _) \<Rightarrow>
                         if (of_char a :: nat) \<le> of_char b
                         then map_option (\<lambda>(items, n). (CRange a b # items, n + k1 + k2 + 3))
                                (class_items (drop (k1 + k2 + 2) s))
                         else None
                     | _ \<Rightarrow> None))
             else map_option (\<lambda>(items, n). (lo # items, n + k1 + 1)) (class_items (drop k1 s))))"
  by pat_completeness auto
termination
  by (relation "measure length") auto

text \<open>A quantifier is lazy when a question mark follows it.\<close>

definition quantifier :: "nat \<Rightarrow> nat option \<Rightarrow> string \<Rightarrow> nat \<Rightarrow> (rtoken \<times> nat) option" where
  "quantifier mn mx s k =
     (if take 1 (drop k s) = ''?'' then Some (TQuant mn mx False, k + 1)
      else Some (TQuant mn mx True, k))"

text \<open>The token at \<open>c # s\<close> and how many characters of \<open>s\<close> it takes.\<close>

definition token_at :: "char \<Rightarrow> string \<Rightarrow> (rtoken \<times> nat) option" where
  "token_at c s =
     (if c = CHR ''^'' then Some (TBol, 0)
      else if c = CHR ''$'' then Some (TEol, 0)
      else if c = CHR ''.'' then Some (TAtom CAny, 0)
      else if c = CHR ''|'' then Some (TBar, 0)
      else if c = CHR '')'' then Some (TClose, 0)
      else if c = CHR ''('' then
        (if take 1 s = ''?'' then (if take 2 s = ''?:'' then Some (TOpen False, 2) else None)
         else Some (TOpen True, 0))
      else if c = CHR ''*'' then quantifier 0 None s 0
      else if c = CHR ''+'' then quantifier 1 None s 0
      else if c = CHR ''?'' then quantifier 0 (Some 1) s 0
      else if c = CHR ''{'' then
        (case braces s of
           None \<Rightarrow> Some (TAtom (CLit c), 0)
         | Some (mn, mx, k) \<Rightarrow> quantifier mn mx s k)
      else if c = CHR ''['' then
        (if take 1 s = ''^''
         then map_option (\<lambda>(items, n). (TAtom (CClass True items), n + 1)) (class_items (drop 1 s))
         else map_option (\<lambda>(items, n). (TAtom (CClass False items), n)) (class_items s))
      else if c = CHR 0x5C then
        (case s of
           [] \<Rightarrow> None
         | e # _ \<Rightarrow>
             (case class_escape e of
                Some item \<Rightarrow> Some (TAtom (CClass False [item]), 1)
              | None \<Rightarrow>
                  if e = CHR ''b'' then Some (TWordB False, 1)
                  else if e = CHR ''B'' then Some (TWordB True, 1)
                  else if nul_escape s then Some (TAtom (CLit (CHR 0x00)), 1)
                  else map_option (\<lambda>x. (TAtom (CLit x), 1)) (char_escape e)))
      else Some (TAtom (CLit c), 0))"

function tokenize :: "string \<Rightarrow> rtoken list option" where
  "tokenize [] = Some []"
| "tokenize (c # s) =
     (case token_at c s of
        None \<Rightarrow> None
      | Some (t, k) \<Rightarrow> map_option ((#) t) (tokenize (drop k s)))"
  by pat_completeness auto
termination
  by (relation "measure length") auto

text \<open>
  The tokens are read with a stack of the groups that are open. Of each group: its
  number when it captures, the alternatives that are complete, the sequence of the
  alternative being read, last term first, and whether a quantifier may follow: it may
  after a character or a group, not after an assertion, a quantifier, a bar or an
  opening parenthesis.
\<close>

record frame =
  group_index :: "nat option"
  alternatives :: "rx list"
  sequence :: "rx list"
  quantifiable :: bool

fun mk_seq :: "rx list \<Rightarrow> rx" where
  "mk_seq [] = REps"
| "mk_seq [r] = r"
| "mk_seq (r # rs) = RCat r (mk_seq rs)"

fun mk_alt :: "rx list \<Rightarrow> rx" where
  "mk_alt [] = REps"
| "mk_alt [r] = r"
| "mk_alt (r # rs) = RAlt r (mk_alt rs)"

definition close_frame :: "frame \<Rightarrow> rx" where
  "close_frame f = mk_alt (rev (mk_seq (rev (sequence f)) # alternatives f))"

definition push_rx :: "rx \<Rightarrow> bool \<Rightarrow> frame \<Rightarrow> frame" where
  "push_rx r q f = f\<lparr>sequence := r # sequence f, quantifiable := q\<rparr>"

definition new_frame :: "nat option \<Rightarrow> frame" where
  "new_frame i = \<lparr>group_index = i, alternatives = [], sequence = [], quantifiable = False\<rparr>"

text \<open>
  One token, on the stack and the number of capturing groups so far. Groups are
  numbered from 1 in the order of their opening parentheses.
\<close>

fun parse_step :: "rtoken \<Rightarrow> frame list \<times> nat \<Rightarrow> (frame list \<times> nat) option" where
  "parse_step t ([], n) = None"
| "parse_step t (f # fs, n) =
     (case t of
        TAtom cs \<Rightarrow> Some (push_rx (RChar cs) True f # fs, n)
      | TBol \<Rightarrow> Some (push_rx RBol False f # fs, n)
      | TEol \<Rightarrow> Some (push_rx REol False f # fs, n)
      | TWordB negated \<Rightarrow> Some (push_rx (RWordB negated) False f # fs, n)
      | TOpen capturing \<Rightarrow>
          if capturing then Some (new_frame (Some (n + 1)) # f # fs, n + 1)
          else Some (new_frame None # f # fs, n)
      | TClose \<Rightarrow>
          (case fs of
             [] \<Rightarrow> None
           | g # rest \<Rightarrow>
               Some (push_rx (case group_index f of
                                None \<Rightarrow> close_frame f
                              | Some i \<Rightarrow> RGroup i (close_frame f)) True g # rest, n))
      | TBar \<Rightarrow>
          Some (f\<lparr>alternatives := mk_seq (rev (sequence f)) # alternatives f,
                  sequence := [], quantifiable := False\<rparr> # fs, n)
      | TQuant mn mx greedy \<Rightarrow>
          (case sequence f of
             [] \<Rightarrow> None
           | r # rs \<Rightarrow>
               if quantifiable f \<and> (case mx of None \<Rightarrow> True | Some m \<Rightarrow> mn \<le> m)
               then Some (f\<lparr>sequence := RRep mn mx greedy r # rs, quantifiable := False\<rparr> # fs, n)
               else None))"

fun parse_tokens :: "rtoken list \<Rightarrow> frame list \<times> nat \<Rightarrow> (frame list \<times> nat) option" where
  "parse_tokens [] st = Some st"
| "parse_tokens (t # ts) st =
     (case parse_step t st of None \<Rightarrow> None | Some st' \<Rightarrow> parse_tokens ts st')"

definition parse :: "rtoken list \<Rightarrow> (rx \<times> nat) option" where
  "parse ts =
     (case parse_tokens ts ([new_frame None], 0) of
        Some ([f], n) \<Rightarrow> Some (close_frame f, n)
      | _ \<Rightarrow> None)"

text \<open>A \<^verbatim>\<open>RegExp\<close> object: its source text, the expression, and the number of its groups.\<close>

record RegExp =
  source :: string
  program :: rx
  groups :: nat

definition RegExp_new :: "string \<Rightarrow> RegExp option" where
  "RegExp_new src =
     (case tokenize src of
        None \<Rightarrow> None
      | Some ts \<Rightarrow>
          (case parse ts of
             None \<Rightarrow> None
           | Some (r, n) \<Rightarrow> Some \<lparr>source = src, program = r, groups = n\<rparr>))"

subsection \<open>Matching\<close>

text \<open>
  The matcher is the backtracking matcher of the language definition, with the
  continuation as a list of what is still to be matched: an expression; the end of a
  group opened at a position; the end of one round of a repetition begun at a position.
  A repetition first clears the groups inside it; a greedy one tries another round
  before it tries what follows, a lazy one the other way round; a round that is not
  required and has matched the empty string fails. The result is the position after
  the match and the groups: \<open>None\<close> for a group that took no part.
\<close>

datatype item = Match rx | CloseGroup nat nat | RepCheck nat nat "nat option" bool rx

fun group_indices :: "rx \<Rightarrow> nat list" where
  "group_indices (RCat a b) = group_indices a @ group_indices b"
| "group_indices (RAlt a b) = group_indices a @ group_indices b"
| "group_indices (RGroup i r) = i # group_indices r"
| "group_indices (RRep mn mx g r) = group_indices r"
| "group_indices r = []"

definition clear_groups :: "rx \<Rightarrow> string option list \<Rightarrow> string option list" where
  "clear_groups r caps = fold (\<lambda>i cs. cs[i - 1 := None]) (group_indices r) caps"

definition at_word_boundary :: "string \<Rightarrow> nat \<Rightarrow> bool" where
  "at_word_boundary inp pos \<longleftrightarrow>
     (0 < pos \<and> word_char (inp ! (pos - 1))) \<noteq> (pos < length inp \<and> word_char (inp ! pos))"

text \<open>The measure by which the matcher terminates.\<close>

fun rep_weight :: "nat \<Rightarrow> nat \<Rightarrow> nat" where
  "rep_weight 0 x = x + 1"
| "rep_weight (Suc n) x = x + rep_weight n x + 2"

fun rx_weight :: "rx \<Rightarrow> nat" where
  "rx_weight (RCat a b) = rx_weight a + rx_weight b + 1"
| "rx_weight (RAlt a b) = rx_weight a + rx_weight b + 1"
| "rx_weight (RGroup i r) = rx_weight r + 2"
| "rx_weight (RRep mn mx g r) = Suc (rep_weight mn (rx_weight r))"
| "rx_weight r = 1"

fun item_weight :: "nat \<Rightarrow> item \<Rightarrow> nat" where
  "item_weight pos (Match r) = rx_weight r"
| "item_weight pos (CloseGroup i start) = 1"
| "item_weight pos (RepCheck start mn mx g r) =
     (case mn of
        0 \<Rightarrow> if pos = start then 1 else rx_weight r + 3
      | Suc n \<Rightarrow> rep_weight n (rx_weight r) + 2)"

function run :: "string \<Rightarrow> item list \<Rightarrow> nat \<Rightarrow> string option list \<Rightarrow> (nat \<times> string option list) option" where
  "run inp [] pos caps = Some (pos, caps)"
| "run inp (Match (RChar cs) # st) pos caps =
     (if pos < length inp \<and> char_set_matches cs (inp ! pos) then run inp st (Suc pos) caps
      else None)"
| "run inp (Match RBol # st) pos caps = (if pos = 0 then run inp st pos caps else None)"
| "run inp (Match REol # st) pos caps = (if pos = length inp then run inp st pos caps else None)"
| "run inp (Match (RWordB negated) # st) pos caps =
     (if at_word_boundary inp pos \<noteq> negated then run inp st pos caps else None)"
| "run inp (Match REps # st) pos caps = run inp st pos caps"
| "run inp (Match (RCat a b) # st) pos caps = run inp (Match a # Match b # st) pos caps"
| "run inp (Match (RAlt a b) # st) pos caps =
     (case run inp (Match a # st) pos caps of
        Some r \<Rightarrow> Some r
      | None \<Rightarrow> run inp (Match b # st) pos caps)"
| "run inp (Match (RGroup i r) # st) pos caps = run inp (Match r # CloseGroup i pos # st) pos caps"
| "run inp (CloseGroup i start # st) pos caps =
     run inp st pos (caps[i - 1 := Some (take (pos - start) (drop start inp))])"
| "run inp (Match (RRep mn mx greedy r) # st) pos caps =
     (if mx = Some 0 then run inp st pos caps
      else if 0 < mn then
        run inp (Match r # RepCheck pos mn mx greedy r # st) pos (clear_groups r caps)
      else if greedy then
        (case run inp (Match r # RepCheck pos mn mx greedy r # st) pos (clear_groups r caps) of
           Some x \<Rightarrow> Some x
         | None \<Rightarrow> run inp st pos caps)
      else
        (case run inp st pos caps of
           Some x \<Rightarrow> Some x
         | None \<Rightarrow>
             run inp (Match r # RepCheck pos mn mx greedy r # st) pos (clear_groups r caps)))"
| "run inp (RepCheck start mn mx greedy r # st) pos caps =
     (if mn = 0 \<and> pos = start then None
      else run inp (Match (RRep (mn - 1) (map_option (\<lambda>m. m - 1) mx) greedy r) # st) pos caps)"
  by pat_completeness auto
termination
  by (relation "measures [\<lambda>(inp, st, pos, caps). length inp - pos,
                           \<lambda>(inp, st, pos, caps). sum_list (map (item_weight pos) st)]")
     (auto split: nat.splits)

fun first_some :: "('a \<Rightarrow> 'b option) \<Rightarrow> 'a list \<Rightarrow> 'b option" where
  "first_some f [] = None"
| "first_some f (x # xs) = (case f x of Some y \<Rightarrow> Some y | None \<Rightarrow> first_some f xs)"

text \<open>
  \<^verbatim>\<open>RegExp.prototype.exec\<close> of an expression without flags: the match is tried at
  index 0, then at 1, and so on to the end of the input. The result is the array of the
  first match: the text matched, then the groups.
\<close>

definition RegExp_exec :: "RegExp \<Rightarrow> string \<Rightarrow> string option list option" where
  "RegExp_exec re s =
     first_some
       (\<lambda>i. map_option (\<lambda>(e, caps). Some (take (e - i) (drop i s)) # caps)
              (run s [Match (program re)] i (replicate (groups re) None)))
       [0..<Suc (length s)]"

section \<open>The pattern matcher, continued\<close>

text \<open>
  \<^verbatim>\<open>parsePattern\<close>: the two replacements in the order of the source, the wildcard's
  first, each pushing on the same \<^verbatim>\<open>paramNames\<close>; then the expression is compiled from
  the resulting text between \<^verbatim>\<open>^\<close> and \<^verbatim>\<open>$\<close>.
\<close>

definition regexStr :: "string \<Rightarrow> string \<times> string list" where
  "regexStr pattern =
     (let (s1, names1) = replace_wildcard pattern;
          (s2, names2) = replace_params s1
      in (s2, names1 @ names2))"

definition parsePattern :: "string \<Rightarrow> (RegExp \<times> string list) option" where
  "parsePattern pattern =
     (let (str, names) = regexStr pattern
      in map_option (\<lambda>re. (re, names)) (RegExp_new (''^'' @ str @ ''$'')))"

text \<open>
  \<^verbatim>\<open>extractParams\<close>: \<^verbatim>\<open>params[names[i]] = match[i + 1]\<close> for \<open>i\<close> from 0. A later
  assignment to the same name overwrites the earlier one. A group that took no part in
  the match is \<^verbatim>\<open>undefined\<close>, and so is the value under its name: no string. An
  assignment to \<^verbatim>\<open>__proto__\<close> on an object literal creates no property.
\<close>

type_synonym params = "string \<rightharpoonup> string"

definition extractParams :: "string list \<Rightarrow> string option list \<Rightarrow> params" where
  "extractParams names match =
     fold (\<lambda>(name, group) ps. if name = ''__proto__'' then ps else ps(name := group))
       (zip names (tl match)) Map.empty"

section \<open>The hub (\<^verbatim>\<open>broadcast_manager.ts\<close>)\<close>

text \<open>
  The request context of a connection. The hub reads nothing of it and writes one
  property, \<^verbatim>\<open>clientId\<close>; the rest (request, session, user) is opaque.
\<close>

record Context =
  request :: string
  ctx_clientId :: "string option"

text \<open>
  The authorization callback is the application's: it returns a truthy value, returns a
  falsy one, or throws (a rejected promise is a throw at the \<^verbatim>\<open>await\<close>).
\<close>

datatype auth_result = Allow | Deny | AuthThrows

type_synonym AuthorizeCallback = "Context \<Rightarrow> params \<Rightarrow> auth_result"

text \<open>\<^verbatim>\<open>PendingBroadcast\<close>: the channel of \<^verbatim>\<open>to\<close> and the \<^verbatim>\<open>excluded\<close> id, \<^verbatim>\<open>null\<close> at first.\<close>

record PendingBroadcast =
  pb_channel :: string
  excluded :: "string option"

text \<open>
  A message handler is the application's too. What it can do to the hub is modelled as
  the broadcasts it sends (builder, event, data) before it returns or throws.
\<close>

datatype handler_result =
    Returns "(PendingBroadcast \<times> string \<times> payload) list"
  | Throws "(PendingBroadcast \<times> string \<times> payload) list"

type_synonym MessageHandler = "Context \<Rightarrow> params \<Rightarrow> payload \<Rightarrow> handler_result"

record ChannelDefinition =
  pattern :: string
  regex :: RegExp
  paramNames :: "string list"
  authorize :: "AuthorizeCallback option"
  messages :: "(string \<rightharpoonup> MessageHandler) option"

text \<open>
  A connection. The transport \<^verbatim>\<open>ws\<close> is named by a number. \<^verbatim>\<open>ctxReady\<close> is the promise
  of the context, taken as settled when a handler awaits it: \<open>None\<close> when it rejects.
\<close>

record ClientConnection =
  ws :: nat
  clientId :: string
  channels :: "string list"
  ctxReady :: "Context option"

text \<open>
  What the hub does to the outside, in order: a frame written to a transport, a call of
  an authorization callback, a call of a message handler.
\<close>

datatype hub_event =
    WsSend nat server_frame
  | AuthCall string Context params
  | HandlerCall string Context params payload

text \<open>
  The static state of \<^verbatim>\<open>BroadcastManager\<close>: \<^verbatim>\<open>_channels\<close>, \<^verbatim>\<open>_clients\<close>,
  \<^verbatim>\<open>_subscribers\<close>, \<^verbatim>\<open>_wsToClient\<close>. The middleware list and the ping timer are left
  out. Two fields are the environment's: \<open>failing\<close>, the transports whose \<^verbatim>\<open>send\<close>
  throws, and \<open>trace\<close>, the events so far.
\<close>

record BroadcastManager =
  bm_channels :: "ChannelDefinition list"
  bm_clients :: "string \<rightharpoonup> ClientConnection"
  bm_subscribers :: "string \<rightharpoonup> string list"
  bm_wsToClient :: "nat \<rightharpoonup> string"
  failing :: "nat set"
  trace :: "hub_event list"

definition hub_init :: BroadcastManager where
  "hub_init = \<lparr>bm_channels = [], bm_clients = Map.empty, bm_subscribers = Map.empty,
     bm_wsToClient = Map.empty, failing = {}, trace = []\<rparr>"

text \<open>\<^verbatim>\<open>ws.send\<close> on the server: it throws on a failing transport.\<close>

definition ws_send :: "BroadcastManager \<Rightarrow> nat \<Rightarrow> server_frame \<Rightarrow> BroadcastManager outcome" where
  "ws_send h w frame =
     (if w \<in> failing h then Thrown h else Done (h\<lparr>trace := trace h @ [WsSend w frame]\<rparr>))"

text \<open>
  \<^verbatim>\<open>channel(pattern, config)\<close>: the configuration is absent, a callback or an object.
  \<open>None\<close> when \<^verbatim>\<open>new RegExp\<close> throws, or the expression has what is left out above.
\<close>

datatype config =
    NoConfig
  | Callback AuthorizeCallback
  | Config "AuthorizeCallback option" "(string \<rightharpoonup> MessageHandler) option"

fun config_authorize :: "config \<Rightarrow> AuthorizeCallback option" where
  "config_authorize NoConfig = None"
| "config_authorize (Callback f) = Some f"
| "config_authorize (Config a m) = a"

fun config_messages :: "config \<Rightarrow> (string \<rightharpoonup> MessageHandler) option" where
  "config_messages NoConfig = None"
| "config_messages (Callback f) = None"
| "config_messages (Config a m) = m"

definition channel :: "BroadcastManager \<Rightarrow> string \<Rightarrow> config \<Rightarrow> BroadcastManager option" where
  "channel h pat cfg =
     (case parsePattern pat of
        None \<Rightarrow> None
      | Some (re, names) \<Rightarrow>
          Some (h\<lparr>bm_channels := bm_channels h @
            [\<lparr>pattern = pat, regex = re, paramNames = names,
              authorize = config_authorize cfg, messages = config_messages cfg\<rparr>]\<rparr>))"

text \<open>
  \<^verbatim>\<open>matchChannel\<close>: the loop over \<^verbatim>\<open>_channels\<close>, which is its first argument here. It
  reads the list and writes nothing; the expressions have no \<^verbatim>\<open>g\<close> or \<^verbatim>\<open>y\<close> flag, so
  \<^verbatim>\<open>exec\<close> keeps no position between calls.
\<close>

fun matchChannel :: "ChannelDefinition list \<Rightarrow> string \<Rightarrow> (ChannelDefinition \<times> params) option" where
  "matchChannel [] channelName = None"
| "matchChannel (def # defs) channelName =
     (case RegExp_exec (regex def) channelName of
        Some m \<Rightarrow> Some (def, extractParams (paramNames def) m)
      | None \<Rightarrow> matchChannel defs channelName)"

text \<open>
  The end of \<^verbatim>\<open>handleSubscribe\<close> (\<^verbatim>\<open>// Add to subscribers\<close>). The connection object is
  the one in \<^verbatim>\<open>_clients\<close>, so the write to its channel set is a write to the table.
\<close>

definition addSubscriber :: "BroadcastManager \<Rightarrow> ClientConnection \<Rightarrow> string \<Rightarrow> BroadcastManager outcome" where
  "addSubscriber h client channelName =
     (let h1 = h\<lparr>bm_clients := (bm_clients h)(clientId client \<mapsto>
                   client\<lparr>channels := set_add channelName (channels client)\<rparr>)\<rparr>;
          subs = (case bm_subscribers h1 channelName of None \<Rightarrow> [] | Some subs \<Rightarrow> subs);
          h2 = h1\<lparr>bm_subscribers := (bm_subscribers h1)(channelName \<mapsto>
                   set_add (clientId client) subs)\<rparr>
      in ws_send h2 (ws client) (Ok channelName))"

text \<open>
  \<^verbatim>\<open>handleSubscribe\<close>, run from its first line to its last with no other handler in
  between: the promise of the authorization callback settles before the hub gets its
  next event. The \<^verbatim>\<open>try\<close> block holds the two awaits and the reply \<^verbatim>\<open>unauthorized\<close>;
  whatever throws in it, a write of that reply included, lands in the \<^verbatim>\<open>catch\<close>, which
  replies \<^verbatim>\<open>authorization failed\<close>.
\<close>

definition handleSubscribe :: "BroadcastManager \<Rightarrow> ClientConnection \<Rightarrow> string \<Rightarrow> BroadcastManager outcome" where
  "handleSubscribe h client channelName =
     (if channelName = [] then Done h
      else if channelName \<in> set (channels client)
      then ws_send h (ws client) (Ok channelName)
      else
        (case matchChannel (bm_channels h) channelName of
           None \<Rightarrow> ws_send h (ws client) (Err channelName ''unknown channel'')
         | Some (defn, ps) \<Rightarrow>
             (case authorize defn of
                None \<Rightarrow> addSubscriber h client channelName
              | Some cb \<Rightarrow>
                  (case ctxReady client of
                     None \<Rightarrow> ws_send h (ws client) (Err channelName ''authorization failed'')
                   | Some ctx \<Rightarrow>
                       (let h1 = h\<lparr>trace := trace h @ [AuthCall (pattern defn) ctx ps]\<rparr>
                        in case cb ctx ps of
                             AuthThrows \<Rightarrow>
                               ws_send h1 (ws client) (Err channelName ''authorization failed'')
                           | Deny \<Rightarrow>
                               (case ws_send h1 (ws client) (Err channelName ''unauthorized'') of
                                  Done h2 \<Rightarrow> Done h2
                                | Thrown h2 \<Rightarrow>
                                    ws_send h2 (ws client)
                                      (Err channelName ''authorization failed''))
                           | Allow \<Rightarrow> addSubscriber h1 client channelName)))))"

text \<open>
  \<^verbatim>\<open>handleSubscribe\<close> is an \<^verbatim>\<open>async\<close> function. At
  \<^verbatim>\<open>await definition.authorize(ctx, params)\<close> it is suspended until the promise of the
  callback settles, and when the callback waits for something (a database, say) the hub
  runs other handlers meanwhile. \<open>handleSubscribe_begin\<close> is
  the function up to that point: it has returned (or thrown), or it is suspended with
  its locals \<^verbatim>\<open>client\<close> and \<^verbatim>\<open>channelName\<close> and with what the promise will settle to.
  \<open>handleSubscribe_resume\<close> is the rest of the function, run on the state that the hub
  is in when the promise settles. The earlier \<^verbatim>\<open>await client.ctxReady\<close> is taken as
  settled: the context is built when the connection opens.
\<close>

datatype subscribe_state =
    Returned "BroadcastManager outcome"
  | Awaiting BroadcastManager ClientConnection string auth_result

definition handleSubscribe_begin :: "BroadcastManager \<Rightarrow> ClientConnection \<Rightarrow> string \<Rightarrow> subscribe_state" where
  "handleSubscribe_begin h client channelName =
     (if channelName = [] then Returned (Done h)
      else if channelName \<in> set (channels client)
      then Returned (ws_send h (ws client) (Ok channelName))
      else
        (case matchChannel (bm_channels h) channelName of
           None \<Rightarrow> Returned (ws_send h (ws client) (Err channelName ''unknown channel''))
         | Some (defn, ps) \<Rightarrow>
             (case authorize defn of
                None \<Rightarrow> Returned (addSubscriber h client channelName)
              | Some cb \<Rightarrow>
                  (case ctxReady client of
                     None \<Rightarrow>
                       Returned (ws_send h (ws client) (Err channelName ''authorization failed''))
                   | Some ctx \<Rightarrow>
                       Awaiting (h\<lparr>trace := trace h @ [AuthCall (pattern defn) ctx ps]\<rparr>)
                         client channelName (cb ctx ps)))))"

text \<open>
  The end of \<^verbatim>\<open>handleSubscribe\<close> (\<^verbatim>\<open>// Add to subscribers\<close>) after a suspension. The
  handler holds the connection object itself. While \<^verbatim>\<open>_clients\<close> has the object, the
  write to its channel set is a write to the table, as in \<open>addSubscriber\<close>; once
  \<^verbatim>\<open>removeClient\<close> or \<^verbatim>\<open>reset\<close> has deleted it, the object is outside the table, and what
  the hub keeps of these lines is the write to \<^verbatim>\<open>_subscribers\<close>. An id is given once, so
  an entry under the id of the object is the object.
\<close>

definition addSubscriber_held :: "BroadcastManager \<Rightarrow> ClientConnection \<Rightarrow> string \<Rightarrow> BroadcastManager outcome" where
  "addSubscriber_held h client channelName =
     (let h1 = (case bm_clients h (clientId client) of
                  None \<Rightarrow> h
                | Some stored \<Rightarrow>
                    h\<lparr>bm_clients := (bm_clients h)(clientId client \<mapsto>
                         stored\<lparr>channels := set_add channelName (channels stored)\<rparr>)\<rparr>);
          subs = (case bm_subscribers h1 channelName of None \<Rightarrow> [] | Some subs \<Rightarrow> subs);
          h2 = h1\<lparr>bm_subscribers := (bm_subscribers h1)(channelName \<mapsto>
                   set_add (clientId client) subs)\<rparr>
      in ws_send h2 (ws client) (Ok channelName))"

definition handleSubscribe_resume :: "BroadcastManager \<Rightarrow> ClientConnection \<Rightarrow> string \<Rightarrow> auth_result \<Rightarrow> BroadcastManager outcome" where
  "handleSubscribe_resume h client channelName allowed =
     (case allowed of
        AuthThrows \<Rightarrow> ws_send h (ws client) (Err channelName ''authorization failed'')
      | Deny \<Rightarrow>
          (case ws_send h (ws client) (Err channelName ''unauthorized'') of
             Done h2 \<Rightarrow> Done h2
           | Thrown h2 \<Rightarrow> ws_send h2 (ws client) (Err channelName ''authorization failed''))
      | Allow \<Rightarrow> addSubscriber_held h client channelName)"

text \<open>The two parts with nothing in between.\<close>

definition handleSubscribe_at_once :: "BroadcastManager \<Rightarrow> ClientConnection \<Rightarrow> string \<Rightarrow> BroadcastManager outcome" where
  "handleSubscribe_at_once h client channelName =
     (case handleSubscribe_begin h client channelName of
        Returned r \<Rightarrow> r
      | Awaiting h1 c n allowed \<Rightarrow> handleSubscribe_resume h1 c n allowed)"

definition handleUnsubscribe :: "BroadcastManager \<Rightarrow> ClientConnection \<Rightarrow> string \<Rightarrow> BroadcastManager" where
  "handleUnsubscribe h client channelName =
     (if channelName = [] then h
      else
        (let h1 = h\<lparr>bm_clients := (bm_clients h)(clientId client \<mapsto>
                      client\<lparr>channels := set_delete channelName (channels client)\<rparr>)\<rparr>
         in case bm_subscribers h1 channelName of
              None \<Rightarrow> h1
            | Some subs \<Rightarrow>
                (let subs' = set_delete (clientId client) subs
                 in if length subs' = 0
                    then h1\<lparr>bm_subscribers := (bm_subscribers h1)(channelName := None)\<rparr>
                    else h1\<lparr>bm_subscribers := (bm_subscribers h1)(channelName \<mapsto> subs')\<rparr>)))"

text \<open>\<^verbatim>\<open>broadcastToChannel\<close>: one step of its loop, then the function.\<close>

definition broadcast_step :: "server_frame \<Rightarrow> string option \<Rightarrow> string \<Rightarrow> BroadcastManager \<Rightarrow> BroadcastManager" where
  "broadcast_step msg excludeClientId cid h =
     (if Some cid = excludeClientId then h
      else
        (case bm_clients h cid of
           None \<Rightarrow> h
         | Some client \<Rightarrow> state_of (catch_all (ws_send h (ws client) msg))))"

definition broadcastToChannel :: "BroadcastManager \<Rightarrow> string \<Rightarrow> string \<Rightarrow> payload \<Rightarrow> string option \<Rightarrow> BroadcastManager" where
  "broadcastToChannel h ch event data excludeClientId =
     (case bm_subscribers h ch of
        None \<Rightarrow> h
      | Some subs \<Rightarrow>
          if length subs = 0 then h
          else fold (broadcast_step (Msg ch event data) excludeClientId) subs h)"

text \<open>\<^verbatim>\<open>to(channel)\<close>, \<^verbatim>\<open>.except(clientId)\<close>, \<^verbatim>\<open>.send(event, data)\<close>.\<close>

definition to :: "string \<Rightarrow> PendingBroadcast" where
  "to ch = \<lparr>pb_channel = ch, excluded = None\<rparr>"

definition except :: "PendingBroadcast \<Rightarrow> string \<Rightarrow> PendingBroadcast" where
  "except pending cid = pending\<lparr>excluded := Some cid\<rparr>"

definition PendingBroadcast_send :: "BroadcastManager \<Rightarrow> PendingBroadcast \<Rightarrow> string \<Rightarrow> payload \<Rightarrow> BroadcastManager" where
  "PendingBroadcast_send h pending event data =
     broadcastToChannel h (pb_channel pending) event data (excluded pending)"

definition subscriberCount :: "BroadcastManager \<Rightarrow> string \<Rightarrow> nat" where
  "subscriberCount h ch = (case bm_subscribers h ch of None \<Rightarrow> 0 | Some subs \<Rightarrow> length subs)"

text \<open>
  \<^verbatim>\<open>handleMessage\<close>. The context that the promise resolves to is one object per
  connection: the write of \<^verbatim>\<open>clientId\<close> to it is kept in the connection.
\<close>

definition run_sends :: "(PendingBroadcast \<times> string \<times> payload) list \<Rightarrow> BroadcastManager \<Rightarrow> BroadcastManager" where
  "run_sends sends h = fold (\<lambda>(pending, event, data) acc. PendingBroadcast_send acc pending event data) sends h"

definition handleMessage :: "BroadcastManager \<Rightarrow> ClientConnection \<Rightarrow> string \<Rightarrow> string \<Rightarrow> payload \<Rightarrow> BroadcastManager outcome" where
  "handleMessage h client channelName event data =
     (if channelName = [] \<or> event = [] then Done h
      else if channelName \<notin> set (channels client) then Done h
      else
        (case matchChannel (bm_channels h) channelName of
           None \<Rightarrow> Done h
         | Some (defn, ps) \<Rightarrow>
             (case messages defn of
                None \<Rightarrow> Done h
              | Some handlers \<Rightarrow>
                  (case handlers event of
                     None \<Rightarrow> Done h
                   | Some handler \<Rightarrow>
                       (case ctxReady client of
                          None \<Rightarrow> Thrown h
                        | Some ctx0 \<Rightarrow>
                            (let ctx = ctx0\<lparr>ctx_clientId := Some (clientId client)\<rparr>;
                                 h1 = h\<lparr>bm_clients := (bm_clients h)(clientId client \<mapsto>
                                         client\<lparr>ctxReady := Some ctx\<rparr>)\<rparr>;
                                 h2 = h1\<lparr>trace := trace h1 @ [HandlerCall event ctx ps data]\<rparr>
                             in case handler ctx ps data of
                                  Returns sends \<Rightarrow> Done (run_sends sends h2)
                                | Throws sends \<Rightarrow> Thrown (run_sends sends h2)))))))"

text \<open>\<^verbatim>\<open>removeClient\<close>: one step of its loop over the connection's channels, then the function.\<close>

definition remove_step :: "string \<Rightarrow> string \<Rightarrow> BroadcastManager \<Rightarrow> BroadcastManager" where
  "remove_step cid ch h =
     (case bm_subscribers h ch of
        None \<Rightarrow> h
      | Some subs \<Rightarrow>
          (let subs' = set_delete cid subs
           in if length subs' = 0
              then h\<lparr>bm_subscribers := (bm_subscribers h)(ch := None)\<rparr>
              else h\<lparr>bm_subscribers := (bm_subscribers h)(ch \<mapsto> subs')\<rparr>))"

definition removeClient :: "BroadcastManager \<Rightarrow> string \<Rightarrow> BroadcastManager" where
  "removeClient h cid =
     (case bm_clients h cid of
        None \<Rightarrow> h
      | Some client \<Rightarrow>
          (let h1 = fold (remove_step cid) (channels client) h
           in h1\<lparr>bm_clients := (bm_clients h1)(cid := None)\<rparr>))"

text \<open>
  The three handlers that \<^verbatim>\<open>boot\<close> registers on the router. \<^verbatim>\<open>open\<close>: the id is the
  result of \<^verbatim>\<open>crypto.randomUUID()\<close> and the context the result of \<^verbatim>\<open>buildContext\<close>, both
  arguments here.
\<close>

definition ws_open :: "BroadcastManager \<Rightarrow> nat \<Rightarrow> string \<Rightarrow> Context option \<Rightarrow> BroadcastManager outcome" where
  "ws_open h w cid ctx =
     (let h1 = h\<lparr>bm_wsToClient := (bm_wsToClient h)(w \<mapsto> cid)\<rparr>;
          h2 = h1\<lparr>bm_clients := (bm_clients h1)(cid \<mapsto>
                  \<lparr>ws = w, clientId = cid, channels = [], ctxReady = ctx\<rparr>)\<rparr>
      in ws_send h2 w (Welcome cid))"

text \<open>
  \<^verbatim>\<open>message\<close>: the whole body is in a \<^verbatim>\<open>try\<close> with an empty \<^verbatim>\<open>catch\<close>. The frame is
  \<open>None\<close> when \<^verbatim>\<open>JSON.parse\<close> throws; a missing or falsy field \<^verbatim>\<open>c\<close> or \<^verbatim>\<open>e\<close> is the
  empty string. A tag that is none of the four does nothing, as \<^verbatim>\<open>pong\<close> does.
\<close>

definition ws_message :: "BroadcastManager \<Rightarrow> nat \<Rightarrow> client_frame option \<Rightarrow> BroadcastManager outcome" where
  "ws_message h w raw =
     catch_all
       (case raw of
          None \<Rightarrow> Thrown h
        | Some msg \<Rightarrow>
            (case bm_wsToClient h w of
               None \<Rightarrow> Done h
             | Some cid \<Rightarrow>
                 if cid = [] then Done h
                 else
                   (case bm_clients h cid of
                      None \<Rightarrow> Done h
                    | Some client \<Rightarrow>
                        (case msg of
                           Sub c \<Rightarrow> handleSubscribe h client c
                         | Unsub c \<Rightarrow> Done (handleUnsubscribe h client c)
                         | MsgIn c e d \<Rightarrow> handleMessage h client c e d
                         | Pong \<Rightarrow> Done h))))"

definition ws_close :: "BroadcastManager \<Rightarrow> nat \<Rightarrow> BroadcastManager" where
  "ws_close h w =
     (case bm_wsToClient h w of
        None \<Rightarrow> h
      | Some cid \<Rightarrow> if cid = [] then h else removeClient h cid)"

text \<open>\<^verbatim>\<open>reset\<close>: \<^verbatim>\<open>_wsToClient\<close> is not cleared.\<close>

definition reset :: "BroadcastManager \<Rightarrow> BroadcastManager" where
  "reset h = h\<lparr>bm_channels := [], bm_clients := Map.empty, bm_subscribers := Map.empty\<rparr>"

section \<open>Properties of the hub state\<close>

text \<open>The matcher of a definition accepts a name when \<^verbatim>\<open>regex.exec\<close> returns a match.\<close>

definition accepts :: "ChannelDefinition \<Rightarrow> string \<Rightarrow> bool" where
  "accepts d n \<longleftrightarrow> RegExp_exec (regex d) n \<noteq> None"

text \<open>Every connection is stored in \<^verbatim>\<open>_clients\<close> under its own id, as \<^verbatim>\<open>open\<close> stores it.\<close>

definition clients_keyed :: "BroadcastManager \<Rightarrow> bool" where
  "clients_keyed h \<longleftrightarrow> (\<forall>cid c. bm_clients h cid = Some c \<longrightarrow> clientId c = cid)"

text \<open>
  The subscription index and the channel sets of the connections say the same: an id is
  in the entry of a channel exactly when the channel is in the set of the connection
  with that id.
\<close>

definition index_consistent :: "BroadcastManager \<Rightarrow> bool" where
  "index_consistent h \<longleftrightarrow>
     (\<forall>cid ch. (\<exists>subs. bm_subscribers h ch = Some subs \<and> cid \<in> set subs) \<longleftrightarrow>
               (\<exists>c. bm_clients h cid = Some c \<and> ch \<in> set (channels c)))"

definition no_empty_entries :: "BroadcastManager \<Rightarrow> bool" where
  "no_empty_entries h \<longleftrightarrow> (\<forall>ch. bm_subscribers h ch \<noteq> Some [])"

definition hub_inv :: "BroadcastManager \<Rightarrow> bool" where
  "hub_inv h \<longleftrightarrow> clients_keyed h \<and> index_consistent h \<and> no_empty_entries h"



text \<open>
  The entry of a channel after an id is removed from it, as \<^verbatim>\<open>handleUnsubscribe\<close> and
  \<^verbatim>\<open>removeClient\<close> leave it: no entry when the set becomes empty.
\<close>

definition drop_member :: "string \<Rightarrow> string list option \<Rightarrow> string list option" where
  "drop_member cid entry =
     (case entry of
        None \<Rightarrow> None
      | Some subs \<Rightarrow> if set_delete cid subs = [] then None else Some (set_delete cid subs))"

text \<open>
  The connections that a broadcast writes to with success, in the order of the
  subscriber set: every subscriber but the excluded one that has a connection whose
  transport does not fail.
\<close>

definition recipients :: "BroadcastManager \<Rightarrow> string option \<Rightarrow> string list \<Rightarrow> ClientConnection list" where
  "recipients h excludeClientId subs =
     List.map_filter
       (\<lambda>cid. if Some cid = excludeClientId then None
              else (case bm_clients h cid of
                      None \<Rightarrow> None
                    | Some c \<Rightarrow> if ws c \<in> failing h then None else Some c))
       subs"

text \<open>
  The connections that a broadcast calls \<^verbatim>\<open>send\<close> on, in the order of the subscriber
  set: the connection of every subscriber but the excluded one. The recipients are those
  of them whose \<^verbatim>\<open>send\<close> does not throw.
\<close>

definition targets :: "BroadcastManager \<Rightarrow> string option \<Rightarrow> string list \<Rightarrow> ClientConnection list" where
  "targets h excludeClientId subs =
     List.map_filter (\<lambda>cid. if Some cid = excludeClientId then None else bm_clients h cid) subs"

text \<open>
  The states the hub can be in: from the initial state, by registrations, by the three
  transport handlers, by broadcasts, by \<^verbatim>\<open>reset\<close>, and by transports starting or ceasing
  to fail. A transport is opened once and \<^verbatim>\<open>crypto.randomUUID()\<close> returns an id that
  no connection has. Each handler runs to its end before the next one starts.
\<close>

inductive reachable :: "BroadcastManager \<Rightarrow> bool" where
  r_init: "reachable hub_init"
| r_channel: "reachable h \<Longrightarrow> channel h pat cfg = Some h' \<Longrightarrow> reachable h'"
| r_open: "reachable h \<Longrightarrow> w \<notin> dom (bm_wsToClient h) \<Longrightarrow> cid \<notin> dom (bm_clients h) \<Longrightarrow>
           reachable (state_of (ws_open h w cid ctx))"
| r_message: "reachable h \<Longrightarrow> reachable (state_of (ws_message h w raw))"
| r_close: "reachable h \<Longrightarrow> reachable (ws_close h w)"
| r_send: "reachable h \<Longrightarrow> reachable (PendingBroadcast_send h pending event data)"
| r_reset: "reachable h \<Longrightarrow> reachable (reset h)"
| r_transport: "reachable h \<Longrightarrow> reachable (h\<lparr>failing := F\<rparr>)"

text \<open>The broadcasts that a handler sent, whether it returned or threw.\<close>

definition handler_sends :: "handler_result \<Rightarrow> (PendingBroadcast \<times> string \<times> payload) list" where
  "handler_sends r = (case r of Returns sends \<Rightarrow> sends | Throws sends \<Rightarrow> sends)"

section \<open>Example runs\<close>

text \<open>
  A client that connects, subscribes to two channels and registers a listener, loses
  the connection, sends two messages while it is offline, and whose retry timer fires.
\<close>

definition ex_client_online :: Broadcast where
  "ex_client_online = onmessage (socket_opened (Broadcast_new \<infinity>)) (Some (Welcome ''id1''))"

definition ex_client_subscribed :: Broadcast where
  "ex_client_subscribed =
     on_channel (fst (subscribe (fst (subscribe ex_client_online ''chat/1'')) ''chat/2''))
       ''chat/1'' ''message'' 1"

definition ex_client_offline :: Broadcast where
  "ex_client_offline = socket_closed ex_client_subscribed"

definition ex_client_retry :: Broadcast where
  "ex_client_retry =
     connect (send (send ex_client_offline (MsgIn ''chat/1'' ''send'' ''hello''))
                (MsgIn ''chat/2'' ''send'' ''again''))"

definition ex_subscription :: Subscription where
  "ex_subscription = \<lparr>sub_channel = ''chat/1'', listeners = [(''message'', [1])]\<rparr>"

text \<open>
  While it is offline the client leaves \<^verbatim>\<open>chat/1\<close>; in the second run it then subscribes
  to \<^verbatim>\<open>chat/1\<close> again. The retry timer fires, the socket opens and the server's
  \<^verbatim>\<open>welcome\<close> arrives.
\<close>

definition ex_client_left :: Broadcast where
  "ex_client_left = fst (leave ex_client_offline ex_subscription)"

definition ex_client_left_online :: Broadcast where
  "ex_client_left_online =
     onmessage (socket_opened (connect ex_client_left)) (Some (Welcome ''id2''))"

definition ex_client_rejoined :: Broadcast where
  "ex_client_rejoined = fst (subscribe ex_client_left ''chat/1'')"

definition ex_client_rejoined_online :: Broadcast where
  "ex_client_rejoined_online =
     onmessage (socket_opened (connect ex_client_rejoined)) (Some (Welcome ''id2''))"

text \<open>
  A hub with two registered channels, as in the documentation: \<^verbatim>\<open>chat/:id\<close> with a
  \<^verbatim>\<open>typing\<close> handler that broadcasts to everyone but the sender, and \<^verbatim>\<open>chats/:id\<close>
  with an authorization callback, which here allows id 7, denies id 8 and throws otherwise.
\<close>

definition ex_ctx :: Context where
  "ex_ctx = \<lparr>request = ''GET /_broadcast'', ctx_clientId = None\<rparr>"

definition ex_typing :: MessageHandler where
  "ex_typing ctx ps data =
     (case ctx_clientId ctx of
        None \<Rightarrow> Returns []
      | Some sender \<Rightarrow>
          (case ps ''id'' of
             None \<Rightarrow> Returns []
           | Some i \<Rightarrow> Returns [(except (to (''chat/'' @ i)) sender, ''typing'', data)]))"

definition ex_authorize :: AuthorizeCallback where
  "ex_authorize ctx ps =
     (if ps ''id'' = Some ''7'' then Allow
      else if ps ''id'' = Some ''8'' then Deny
      else AuthThrows)"

definition ex_literal :: "string \<Rightarrow> rx list" where
  "ex_literal s = map (RChar \<circ> CLit) s"

definition ex_segment :: "nat \<Rightarrow> rx" where
  "ex_segment i = RGroup i (RRep 1 None True (RChar (CClass True [CRange CHR ''/'' CHR ''/''])))"

definition ex_chat :: ChannelDefinition where
  "ex_chat = \<lparr>pattern = ''chat/:id'',
     regex = \<lparr>source = ''^chat/([^/]+)$'',
              program = mk_seq ([RBol] @ ex_literal ''chat/'' @ [ex_segment 1, REol]),
              groups = 1\<rparr>,
     paramNames = [''id''], authorize = None,
     messages = Some [''typing'' \<mapsto> ex_typing]\<rparr>"

definition ex_chats :: ChannelDefinition where
  "ex_chats = \<lparr>pattern = ''chats/:id'',
     regex = \<lparr>source = ''^chats/([^/]+)$'',
              program = mk_seq ([RBol] @ ex_literal ''chats/'' @ [ex_segment 1, REol]),
              groups = 1\<rparr>,
     paramNames = [''id''], authorize = Some ex_authorize, messages = None\<rparr>"

definition ex_registered :: BroadcastManager where
  "ex_registered = hub_init\<lparr>bm_channels := [ex_chat, ex_chats]\<rparr>"

text \<open>A connection opens on a transport and subscribes to \<^verbatim>\<open>chat/1\<close>.\<close>

definition ex_join :: "BroadcastManager \<Rightarrow> nat \<Rightarrow> string \<Rightarrow> BroadcastManager" where
  "ex_join h w cid =
     state_of (ws_message (state_of (ws_open h w cid (Some ex_ctx))) w (Some (Sub ''chat/1'')))"

definition ex_conn :: "nat \<Rightarrow> string \<Rightarrow> ClientConnection" where
  "ex_conn w cid = \<lparr>ws = w, clientId = cid, channels = [''chat/1''], ctxReady = Some ex_ctx\<rparr>"

definition ex_hub1 :: BroadcastManager where
  "ex_hub1 = ex_join ex_registered 11 ''c1''"

definition ex_hub2 :: BroadcastManager where
  "ex_hub2 = ex_join ex_hub1 12 ''c2''"

definition ex_hub :: BroadcastManager where
  "ex_hub = ex_join ex_hub2 13 ''c3''"

text \<open>The first connection then subscribes to \<^verbatim>\<open>chats/7\<close>, which its callback allows.\<close>

definition ex_hub_auth :: BroadcastManager where
  "ex_hub_auth = state_of (ws_message ex_hub 11 (Some (Sub ''chats/7'')))"

text \<open>
  The first connection, alone on the hub, sends \<^verbatim>\<open>sub\<close> for \<^verbatim>\<open>chats/7\<close>. While the
  handler waits for the authorization callback, the connection's transport closes (in
  the second run \<^verbatim>\<open>reset\<close> is called instead); then the callback's promise settles and
  the handler goes on.
\<close>

definition ex_pending :: subscribe_state where
  "ex_pending = handleSubscribe_begin ex_hub1 (ex_conn 11 ''c1'') ''chats/7''"

definition ex_closed_meanwhile :: BroadcastManager where
  "ex_closed_meanwhile =
     (case ex_pending of
        Returned r \<Rightarrow> state_of r
      | Awaiting h c n allowed \<Rightarrow> state_of (handleSubscribe_resume (ws_close h 11) c n allowed))"

definition ex_reset_meanwhile :: BroadcastManager where
  "ex_reset_meanwhile =
     (case ex_pending of
        Returned r \<Rightarrow> state_of r
      | Awaiting h c n allowed \<Rightarrow> state_of (handleSubscribe_resume (reset h) c n allowed))"

text \<open>
  A pattern with a wildcard alone, and a pattern with a parameter and then a wildcard,
  each registered on an empty hub and matched against a name.
\<close>

definition ex_path :: "(ChannelDefinition \<times> params) option" where
  "ex_path =
     Option.bind (channel hub_init ''files/*path'' NoConfig)
       (\<lambda>h. matchChannel (bm_channels h) ''files/a/b/c'')"

definition ex_files :: "(ChannelDefinition \<times> params) option" where
  "ex_files =
     Option.bind (channel hub_init ''files/:id/*path'' NoConfig)
       (\<lambda>h. matchChannel (bm_channels h) ''files/7/a/b'')"

text \<open>A second definition for \<^verbatim>\<open>chat/:id\<close>, registered after the first.\<close>

definition ex_chat_late :: ChannelDefinition where
  "ex_chat_late = ex_chat\<lparr>pattern := ''chat/:room'', paramNames := [''room'']\<rparr>"

section \<open>Lemmas about the hub\<close>

subsection \<open>Resolution\<close>

lemma matchChannel_None_iff:
  "matchChannel defs n = None \<longleftrightarrow> (\<forall>d \<in> set defs. \<not> accepts d n)"
proof (induction defs)
  case Nil
  then show ?case by simp
next
  case (Cons d defs)
  then show ?case by (cases "RegExp_exec (regex d) n") (simp_all add: accepts_def)
qed

lemma matchChannel_first:
  assumes "i < length defs" and "accepts (defs ! i) n"
    and "\<forall>j < i. \<not> accepts (defs ! j) n"
  shows "matchChannel defs n =
    Some (defs ! i, extractParams (paramNames (defs ! i)) (the (RegExp_exec (regex (defs ! i)) n)))"
  using assms
proof (induction defs arbitrary: i)
  case Nil
  then show ?case by simp
next
  case (Cons d defs)
  show ?case
  proof (cases i)
    case 0
    with Cons.prems show ?thesis by (auto simp: accepts_def)
  next
    case (Suc k)
    with Cons.prems have d: "\<not> accepts d n" by auto
    have k: "k < length defs" "accepts (defs ! k) n" "\<forall>j < k. \<not> accepts (defs ! j) n"
      using Cons.prems Suc by auto
    from Cons.IH [OF k] d Suc show ?thesis by (simp add: accepts_def)
  qed
qed

lemma channel_appends:
  assumes "channel h p cfg = Some h'"
  shows "\<exists>d. bm_channels h' = bm_channels h @ [d] \<and> pattern d = p \<and>
             authorize d = config_authorize cfg \<and> messages d = config_messages cfg \<and>
             parsePattern p = Some (regex d, paramNames d) \<and>
             h' = h\<lparr>bm_channels := bm_channels h @ [d]\<rparr>"
  using assms by (auto simp: channel_def split: option.splits)

subsection \<open>Tables after each operation\<close>

lemma hub_inv_tables:
  "bm_clients h' = bm_clients h \<Longrightarrow> bm_subscribers h' = bm_subscribers h \<Longrightarrow> hub_inv h' = hub_inv h"
  by (simp add: hub_inv_def clients_keyed_def index_consistent_def no_empty_entries_def)

lemma ws_send_tables:
  "bm_subscribers (state_of (ws_send h w f)) = bm_subscribers h"
  "bm_clients (state_of (ws_send h w f)) = bm_clients h"
  "bm_channels (state_of (ws_send h w f)) = bm_channels h"
  "bm_wsToClient (state_of (ws_send h w f)) = bm_wsToClient h"
  "failing (state_of (ws_send h w f)) = failing h"
  by (simp_all add: ws_send_def)

lemma addSubscriber_tables:
  "bm_clients (state_of (addSubscriber h c ch)) =
     (bm_clients h)(clientId c \<mapsto> c\<lparr>channels := set_add ch (channels c)\<rparr>)"
  "bm_subscribers (state_of (addSubscriber h c ch)) =
     (bm_subscribers h)(ch \<mapsto> set_add (clientId c)
        (case bm_subscribers h ch of None \<Rightarrow> [] | Some subs \<Rightarrow> subs))"
  "bm_channels (state_of (addSubscriber h c ch)) = bm_channels h"
  "bm_wsToClient (state_of (addSubscriber h c ch)) = bm_wsToClient h"
  "failing (state_of (addSubscriber h c ch)) = failing h"
  by (simp_all add: addSubscriber_def Let_def ws_send_tables)

lemma handleSubscribe_tables:
  fixes h c ch
  defines "h' \<equiv> state_of (handleSubscribe h c ch)"
  shows "(bm_clients h' = bm_clients h \<and> bm_subscribers h' = bm_subscribers h \<or>
          bm_clients h' = (bm_clients h)(clientId c \<mapsto> c\<lparr>channels := set_add ch (channels c)\<rparr>) \<and>
          bm_subscribers h' = (bm_subscribers h)(ch \<mapsto> set_add (clientId c)
             (case bm_subscribers h ch of None \<Rightarrow> [] | Some subs \<Rightarrow> subs))) \<and>
         bm_channels h' = bm_channels h \<and> bm_wsToClient h' = bm_wsToClient h \<and>
         failing h' = failing h"
  unfolding h'_def handleSubscribe_def
  by (simp add: ws_send_tables addSubscriber_tables Let_def
           split: option.split prod.split auth_result.split outcome.split)
     (auto simp: ws_send_def)


lemma set_set_add [simp]: "set (set_add x xs) = insert x (set xs)"
  by (auto simp: set_add_def)

lemma set_set_delete [simp]: "set (set_delete x xs) = set xs - {x}"
  by (auto simp: set_delete_def)

lemma set_add_not_Nil [simp]: "set_add x xs \<noteq> []"
  by (auto simp: set_add_def)


lemma distinct_set_delete: "distinct xs \<Longrightarrow> distinct (set_delete x xs)"
  by (simp add: set_delete_def distinct_removeAll)

lemma hub_inv_add:
  assumes inv: "hub_inv h" and c: "bm_clients h (clientId c) = Some c"
    and cl: "bm_clients h' = (bm_clients h)(clientId c \<mapsto> c\<lparr>channels := set_add ch (channels c)\<rparr>)"
    and su: "bm_subscribers h' = (bm_subscribers h)(ch \<mapsto> set_add (clientId c)
               (case bm_subscribers h ch of None \<Rightarrow> [] | Some subs \<Rightarrow> subs))"
  shows "hub_inv h'"
proof -
  from inv have k: "clients_keyed h" and i: "index_consistent h" and e: "no_empty_entries h"
    by (simp_all add: hub_inv_def)
  have k': "clients_keyed h'"
    using k by (auto simp: clients_keyed_def cl)
  have e': "no_empty_entries h'"
    using e by (auto simp: no_empty_entries_def su)
  have i': "index_consistent h'"
    unfolding index_consistent_def
  proof (intro allI)
    fix cid x
    have old: "(\<exists>subs. bm_subscribers h x = Some subs \<and> cid \<in> set subs) \<longleftrightarrow>
               (\<exists>d. bm_clients h cid = Some d \<and> x \<in> set (channels d))"
      using i by (simp add: index_consistent_def)
    show "(\<exists>subs. bm_subscribers h' x = Some subs \<and> cid \<in> set subs) \<longleftrightarrow>
          (\<exists>d. bm_clients h' cid = Some d \<and> x \<in> set (channels d))"
    proof (cases "x = ch")
      case True
      have l: "(\<exists>subs. bm_subscribers h' x = Some subs \<and> cid \<in> set subs) \<longleftrightarrow>
               cid = clientId c \<or> (\<exists>subs. bm_subscribers h x = Some subs \<and> cid \<in> set subs)"
        using True by (auto simp: su split: option.splits)
      have r: "(\<exists>d. bm_clients h' cid = Some d \<and> x \<in> set (channels d)) \<longleftrightarrow>
               cid = clientId c \<or> (\<exists>d. bm_clients h cid = Some d \<and> x \<in> set (channels d))"
        using True c by (auto simp: cl)
      show ?thesis using l r old by simp
    next
      case False
      have l: "(\<exists>subs. bm_subscribers h' x = Some subs \<and> cid \<in> set subs) \<longleftrightarrow>
               (\<exists>subs. bm_subscribers h x = Some subs \<and> cid \<in> set subs)"
        using False by (simp add: su)
      have r: "(\<exists>d. bm_clients h' cid = Some d \<and> x \<in> set (channels d)) \<longleftrightarrow>
               (\<exists>d. bm_clients h cid = Some d \<and> x \<in> set (channels d))"
        using False c by (auto simp: cl)
      show ?thesis using l r old by simp
    qed
  qed
  show ?thesis using k' i' e' by (simp add: hub_inv_def)
qed

lemma handleSubscribe_inv:
  assumes "hub_inv h" and "bm_clients h (clientId c) = Some c"
  shows "hub_inv (state_of (handleSubscribe h c ch))"
  using handleSubscribe_tables [of h c ch] hub_inv_add [OF assms] hub_inv_tables assms(1)
  by blast


lemma removeAll_Nil_iff: "removeAll x xs = [] \<longleftrightarrow> set xs \<subseteq> {x}"
  by (induction xs) auto

lemma set_drop_member:
  "(\<exists>subs. drop_member cid e = Some subs \<and> x \<in> set subs) \<longleftrightarrow>
   x \<noteq> cid \<and> (\<exists>subs. e = Some subs \<and> x \<in> set subs)"
  by (cases e) (auto simp: drop_member_def set_delete_def removeAll_Nil_iff)

lemma drop_member_not_empty [simp]: "drop_member cid e \<noteq> Some []"
  by (cases e) (auto simp: drop_member_def)

lemma drop_member_idem [simp]: "drop_member cid (drop_member cid e) = drop_member cid e"
  by (cases e) (auto simp: drop_member_def set_delete_def)


lemma remove_step_eq:
  "remove_step cid ch h = h\<lparr>bm_subscribers := (bm_subscribers h)(ch := drop_member cid (bm_subscribers h ch))\<rparr>"
  by (cases "bm_subscribers h ch") (auto simp: remove_step_def drop_member_def Let_def fun_upd_idem)

lemma fold_remove_step:
  "fold (remove_step cid) chs h =
     h\<lparr>bm_subscribers := (\<lambda>x. if x \<in> set chs then drop_member cid (bm_subscribers h x)
                                else bm_subscribers h x)\<rparr>"
proof (induction chs arbitrary: h)
  case Nil
  then show ?case by simp
next
  case (Cons ch chs)
  have "fold (remove_step cid) (ch # chs) h = fold (remove_step cid) chs (remove_step cid ch h)"
    by simp
  also have "\<dots> = (remove_step cid ch h)\<lparr>bm_subscribers :=
      (\<lambda>x. if x \<in> set chs then drop_member cid (bm_subscribers (remove_step cid ch h) x)
           else bm_subscribers (remove_step cid ch h) x)\<rparr>"
    by (rule Cons.IH)
  also have "\<dots> = h\<lparr>bm_subscribers := (\<lambda>x. if x \<in> set (ch # chs)
      then drop_member cid (bm_subscribers h x) else bm_subscribers h x)\<rparr>"
    unfolding remove_step_eq
    by (simp, rule arg_cong [where f = "\<lambda>F. h\<lparr>bm_subscribers := F\<rparr>"], rule ext, simp)
  finally show ?case .
qed

lemma handleUnsubscribe_eq:
  "ch \<noteq> [] \<Longrightarrow> handleUnsubscribe h c ch =
     h\<lparr>bm_clients := (bm_clients h)(clientId c \<mapsto> c\<lparr>channels := set_delete ch (channels c)\<rparr>),
       bm_subscribers := (bm_subscribers h)(ch := drop_member (clientId c) (bm_subscribers h ch))\<rparr>"
  by (cases "bm_subscribers h ch") (auto simp: handleUnsubscribe_def drop_member_def Let_def fun_upd_idem)

lemma hub_inv_unsub:
  assumes inv: "hub_inv h" and c: "bm_clients h (clientId c) = Some c"
  shows "hub_inv (handleUnsubscribe h c ch)"
proof (cases "ch = []")
  case True
  then show ?thesis using inv by (simp add: handleUnsubscribe_def)
next
  case False
  let ?h = "handleUnsubscribe h c ch"
  from inv have k: "clients_keyed h" and i: "index_consistent h" and e: "no_empty_entries h"
    by (simp_all add: hub_inv_def)
  have cl: "bm_clients ?h = (bm_clients h)(clientId c \<mapsto> c\<lparr>channels := set_delete ch (channels c)\<rparr>)"
    and su: "bm_subscribers ?h = (bm_subscribers h)(ch := drop_member (clientId c) (bm_subscribers h ch))"
    using False by (simp_all add: handleUnsubscribe_eq)
  have k': "clients_keyed ?h"
    using k by (auto simp: clients_keyed_def cl)
  have e': "no_empty_entries ?h"
    using e by (auto simp: no_empty_entries_def su)
  have i': "index_consistent ?h"
    unfolding index_consistent_def
  proof (intro allI)
    fix cid x
    have old: "(\<exists>subs. bm_subscribers h x = Some subs \<and> cid \<in> set subs) \<longleftrightarrow>
               (\<exists>d. bm_clients h cid = Some d \<and> x \<in> set (channels d))"
      using i by (simp add: index_consistent_def)
    show "(\<exists>subs. bm_subscribers ?h x = Some subs \<and> cid \<in> set subs) \<longleftrightarrow>
          (\<exists>d. bm_clients ?h cid = Some d \<and> x \<in> set (channels d))"
    proof (cases "x = ch")
      case True
      have l: "(\<exists>subs. bm_subscribers ?h x = Some subs \<and> cid \<in> set subs) \<longleftrightarrow>
               cid \<noteq> clientId c \<and> (\<exists>subs. bm_subscribers h x = Some subs \<and> cid \<in> set subs)"
        using True by (simp add: su set_drop_member)
      have r: "(\<exists>d. bm_clients ?h cid = Some d \<and> x \<in> set (channels d)) \<longleftrightarrow>
               cid \<noteq> clientId c \<and> (\<exists>d. bm_clients h cid = Some d \<and> x \<in> set (channels d))"
        using True c by (auto simp: cl)
      show ?thesis using l r old by simp
    next
      case False
      have l: "(\<exists>subs. bm_subscribers ?h x = Some subs \<and> cid \<in> set subs) \<longleftrightarrow>
               (\<exists>subs. bm_subscribers h x = Some subs \<and> cid \<in> set subs)"
        using False by (simp add: su)
      have r: "(\<exists>d. bm_clients ?h cid = Some d \<and> x \<in> set (channels d)) \<longleftrightarrow>
               (\<exists>d. bm_clients h cid = Some d \<and> x \<in> set (channels d))"
        using False c by (auto simp: cl)
      show ?thesis using l r old by simp
    qed
  qed
  show ?thesis using k' i' e' by (simp add: hub_inv_def)
qed

lemma removeClient_eq:
  "bm_clients h cid = Some c \<Longrightarrow> removeClient h cid =
     h\<lparr>bm_subscribers := (\<lambda>x. if x \<in> set (channels c) then drop_member cid (bm_subscribers h x)
                                else bm_subscribers h x),
       bm_clients := (bm_clients h)(cid := None)\<rparr>"
  by (simp add: removeClient_def fold_remove_step Let_def)

lemma hub_inv_remove:
  assumes inv: "hub_inv h"
  shows "hub_inv (removeClient h cid)"
proof (cases "bm_clients h cid")
  case None
  then show ?thesis using inv by (simp add: removeClient_def)
next
  case (Some c)
  let ?h = "removeClient h cid"
  from inv have k: "clients_keyed h" and i: "index_consistent h" and e: "no_empty_entries h"
    by (simp_all add: hub_inv_def)
  have cl: "bm_clients ?h = (bm_clients h)(cid := None)"
    and su: "bm_subscribers ?h = (\<lambda>x. if x \<in> set (channels c) then drop_member cid (bm_subscribers h x)
                                else bm_subscribers h x)"
    using Some by (simp_all add: removeClient_eq)
  have k': "clients_keyed ?h"
    using k by (auto simp: clients_keyed_def cl)
  have e': "no_empty_entries ?h"
    using e by (auto simp: no_empty_entries_def su)
  have i': "index_consistent ?h"
    unfolding index_consistent_def
  proof (intro allI)
    fix cid' x
    have old: "\<And>y. (\<exists>subs. bm_subscribers h x = Some subs \<and> y \<in> set subs) \<longleftrightarrow>
               (\<exists>d. bm_clients h y = Some d \<and> x \<in> set (channels d))"
      using i by (simp add: index_consistent_def)
    have l: "(\<exists>subs. bm_subscribers ?h x = Some subs \<and> cid' \<in> set subs) \<longleftrightarrow>
             cid' \<noteq> cid \<and> (\<exists>subs. bm_subscribers h x = Some subs \<and> cid' \<in> set subs)"
    proof (cases "x \<in> set (channels c)")
      case True
      then show ?thesis by (simp add: su set_drop_member)
    next
      case False
      with old [of cid] Some have "\<not> (\<exists>subs. bm_subscribers h x = Some subs \<and> cid \<in> set subs)"
        by simp
      with False show ?thesis by (auto simp: su)
    qed
    have r: "(\<exists>d. bm_clients ?h cid' = Some d \<and> x \<in> set (channels d)) \<longleftrightarrow>
             cid' \<noteq> cid \<and> (\<exists>d. bm_clients h cid' = Some d \<and> x \<in> set (channels d))"
      by (auto simp: cl)
    show "(\<exists>subs. bm_subscribers ?h x = Some subs \<and> cid' \<in> set subs) \<longleftrightarrow>
          (\<exists>d. bm_clients ?h cid' = Some d \<and> x \<in> set (channels d))"
      using l r old [of cid'] by simp
  qed
  show ?thesis using k' i' e' by (simp add: hub_inv_def)
qed

subsection \<open>Subscribe replies\<close>

lemma resub:
  assumes "ch \<noteq> []" and "ch \<in> set (channels c)"
  shows "handleSubscribe h c ch = ws_send h (ws c) (Ok ch)"
  using assms by (simp add: handleSubscribe_def)

lemma ws_send_cases:
  "ws_send h w f = Thrown h \<and> w \<in> failing h \<or>
   ws_send h w f = Done (h\<lparr>trace := trace h @ [WsSend w f]\<rparr>) \<and> w \<notin> failing h"
  by (simp add: ws_send_def)

lemma denied:
  assumes "ch \<noteq> []" and "ch \<notin> set (channels c)"
    and "matchChannel (bm_channels h) ch = Some (d, ps)" and "authorize d = Some cb"
    and "ctxReady c = Some ctx"
  shows "cb ctx ps = Deny \<Longrightarrow> ws c \<notin> failing h \<Longrightarrow>
           handleSubscribe h c ch =
             Done (h\<lparr>trace := trace h @ [AuthCall (pattern d) ctx ps,
                                         WsSend (ws c) (Err ch ''unauthorized'')]\<rparr>)"
    and "cb ctx ps = AuthThrows \<Longrightarrow> ws c \<notin> failing h \<Longrightarrow>
           handleSubscribe h c ch =
             Done (h\<lparr>trace := trace h @ [AuthCall (pattern d) ctx ps,
                                         WsSend (ws c) (Err ch ''authorization failed'')]\<rparr>)"
    and "cb ctx ps \<noteq> Allow \<Longrightarrow>
           bm_subscribers (state_of (handleSubscribe h c ch)) = bm_subscribers h \<and>
           bm_clients (state_of (handleSubscribe h c ch)) = bm_clients h"
  using assms
  by (auto simp: handleSubscribe_def ws_send_def Let_def split: auth_result.splits)

lemma catch_all_Done: "\<exists>s. catch_all x = Done s"
  by (cases x) simp_all

lemma ws_message_Done: "\<exists>h'. ws_message h w raw = Done h'"
  unfolding ws_message_def by (rule catch_all_Done)

subsection \<open>Broadcast and message dispatch\<close>

lemma recipients_trace [simp]: "recipients (h\<lparr>trace := t\<rparr>) ex subs = recipients h ex subs"
  by (simp add: recipients_def cong: if_cong option.case_cong)

lemma recipients_Nil [simp]: "recipients h ex [] = []"
  by (simp add: recipients_def)

lemma recipients_Cons:
  "recipients h ex (cid # subs) =
     (if Some cid = ex then recipients h ex subs
      else case bm_clients h cid of
             None \<Rightarrow> recipients h ex subs
           | Some c \<Rightarrow> if ws c \<in> failing h then recipients h ex subs
                       else c # recipients h ex subs)"
  by (simp add: recipients_def split: option.splits)

lemma broadcast_step_eq:
  "broadcast_step msg ex cid h =
     h\<lparr>trace := trace h @ map (\<lambda>c. WsSend (ws c) msg) (recipients h ex [cid])\<rparr>"
  by (simp add: broadcast_step_def recipients_Cons ws_send_def split: option.splits)

lemma fold_broadcast_step:
  "fold (broadcast_step msg ex) subs h =
     h\<lparr>trace := trace h @ map (\<lambda>c. WsSend (ws c) msg) (recipients h ex subs)\<rparr>"
proof (induction subs arbitrary: h)
  case Nil
  then show ?case by simp
next
  case (Cons cid subs)
  have "fold (broadcast_step msg ex) (cid # subs) h =
        fold (broadcast_step msg ex) subs (broadcast_step msg ex cid h)"
    by simp
  also have "\<dots> = (broadcast_step msg ex cid h)\<lparr>trace := trace (broadcast_step msg ex cid h) @
       map (\<lambda>c. WsSend (ws c) msg) (recipients (broadcast_step msg ex cid h) ex subs)\<rparr>"
    by (rule Cons.IH)
  also have "\<dots> = h\<lparr>trace := trace h @ map (\<lambda>c. WsSend (ws c) msg) (recipients h ex (cid # subs))\<rparr>"
    unfolding broadcast_step_eq by (simp add: recipients_Cons split: option.splits)
  finally show ?case .
qed

lemma broadcastToChannel_eq:
  "broadcastToChannel h ch ev d ex =
     h\<lparr>trace := trace h @ map (\<lambda>c. WsSend (ws c) (Msg ch ev d))
        (recipients h ex (case bm_subscribers h ch of None \<Rightarrow> [] | Some subs \<Rightarrow> subs))\<rparr>"
  by (simp add: broadcastToChannel_def fold_broadcast_step split: option.splits)

lemma send_tables:
  "bm_subscribers (PendingBroadcast_send h p ev d) = bm_subscribers h"
  "bm_clients (PendingBroadcast_send h p ev d) = bm_clients h"
  "bm_channels (PendingBroadcast_send h p ev d) = bm_channels h"
  "bm_wsToClient (PendingBroadcast_send h p ev d) = bm_wsToClient h"
  "failing (PendingBroadcast_send h p ev d) = failing h"
  by (simp_all add: PendingBroadcast_send_def broadcastToChannel_eq)

lemma run_sends_tables:
  "bm_subscribers (run_sends sends h) = bm_subscribers h \<and>
   bm_clients (run_sends sends h) = bm_clients h \<and>
   bm_channels (run_sends sends h) = bm_channels h \<and>
   bm_wsToClient (run_sends sends h) = bm_wsToClient h \<and>
   failing (run_sends sends h) = failing h"
  unfolding run_sends_def
  by (induction sends arbitrary: h) (simp_all add: send_tables split: prod.splits)

lemma handleMessage_state:
  "state_of (handleMessage h c ch ev d) = h \<or>
   (\<exists>ctx sends t. state_of (handleMessage h c ch ev d) =
      run_sends sends (h\<lparr>bm_clients := (bm_clients h)(clientId c \<mapsto> c\<lparr>ctxReady := Some ctx\<rparr>),
                         trace := t\<rparr>))"
proof (cases "matchChannel (bm_channels h) ch")
  case None
  then show ?thesis by (simp add: handleMessage_def)
next
  case (Some m)
  obtain defn ps where m: "m = (defn, ps)" by (cases m)
  show ?thesis
  proof (cases "messages defn")
    case None
    then show ?thesis using Some m by (simp add: handleMessage_def)
  next
    case hs: (Some handlers)
    show ?thesis
    proof (cases "handlers ev")
      case None
      then show ?thesis using Some m hs by (simp add: handleMessage_def)
    next
      case hd: (Some handler)
      show ?thesis
      proof (cases "ctxReady c")
        case None
        then show ?thesis using Some m hs hd by (simp add: handleMessage_def)
      next
        case cx: (Some ctx0)
        show ?thesis
          using Some m hs hd cx
          by (cases "handler (ctx0\<lparr>ctx_clientId := Some (clientId c)\<rparr>) ps d")
             (auto simp: handleMessage_def Let_def)
      qed
    qed
  qed
qed

lemma handleMessage_tables:
  fixes h c ch ev d
  defines "h' \<equiv> state_of (handleMessage h c ch ev d)"
  shows "(bm_clients h' = bm_clients h \<or>
          (\<exists>ctx. bm_clients h' = (bm_clients h)(clientId c \<mapsto> c\<lparr>ctxReady := Some ctx\<rparr>))) \<and>
         bm_subscribers h' = bm_subscribers h \<and>
         bm_channels h' = bm_channels h \<and> bm_wsToClient h' = bm_wsToClient h \<and>
         failing h' = failing h"
  using handleMessage_state [of h c ch ev d] unfolding h'_def
  by (auto simp: run_sends_tables)

lemma hub_inv_ctx:
  assumes inv: "hub_inv h" and c: "bm_clients h (clientId c) = Some c"
    and cl: "bm_clients h' = (bm_clients h)(clientId c \<mapsto> c\<lparr>ctxReady := x\<rparr>)"
    and su: "bm_subscribers h' = bm_subscribers h"
  shows "hub_inv h'"
proof -
  from inv have k: "clients_keyed h" and i: "index_consistent h" and e: "no_empty_entries h"
    by (simp_all add: hub_inv_def)
  have k': "clients_keyed h'"
    using k by (auto simp: clients_keyed_def cl)
  have e': "no_empty_entries h'"
    using e by (auto simp: no_empty_entries_def su)
  have r: "\<And>cid x. (\<exists>d. bm_clients h' cid = Some d \<and> x \<in> set (channels d)) \<longleftrightarrow>
               (\<exists>d. bm_clients h cid = Some d \<and> x \<in> set (channels d))"
    using c by (auto simp: cl)
  have i': "index_consistent h'"
    using i unfolding index_consistent_def r su by simp
  show ?thesis using k' i' e' by (simp add: hub_inv_def)
qed

lemma handleMessage_inv:
  assumes inv: "hub_inv h" and c: "bm_clients h (clientId c) = Some c"
  shows "hub_inv (state_of (handleMessage h c ch ev d))"
proof -
  let ?h = "state_of (handleMessage h c ch ev d)"
  have su: "bm_subscribers ?h = bm_subscribers h"
    using handleMessage_tables [of h c ch ev d] by simp
  have "bm_clients ?h = bm_clients h \<or>
        (\<exists>ctx. bm_clients ?h = (bm_clients h)(clientId c \<mapsto> c\<lparr>ctxReady := Some ctx\<rparr>))"
    using handleMessage_tables [of h c ch ev d] by simp
  then show ?thesis
  proof (elim disjE exE)
    assume "bm_clients ?h = bm_clients h"
    then show ?thesis using hub_inv_tables [OF _ su] inv by simp
  next
    fix ctx
    assume "bm_clients ?h = (bm_clients h)(clientId c \<mapsto> c\<lparr>ctxReady := Some ctx\<rparr>)"
    then show ?thesis by (rule hub_inv_ctx [OF inv c _ su])
  qed
qed

lemma hub_inv_open:
  assumes inv: "hub_inv h" and fresh: "cid \<notin> dom (bm_clients h)"
  shows "hub_inv (state_of (ws_open h w cid ctx))"
proof -
  let ?h = "state_of (ws_open h w cid ctx)"
  from inv have k: "clients_keyed h" and i: "index_consistent h" and e: "no_empty_entries h"
    by (simp_all add: hub_inv_def)
  have cl: "bm_clients ?h = (bm_clients h)(cid \<mapsto> \<lparr>ws = w, clientId = cid, channels = [], ctxReady = ctx\<rparr>)"
    and su: "bm_subscribers ?h = bm_subscribers h"
    by (simp_all add: ws_open_def Let_def ws_send_tables)
  have k': "clients_keyed ?h"
    using k by (auto simp: clients_keyed_def cl)
  have e': "no_empty_entries ?h"
    using e by (auto simp: no_empty_entries_def su)
  have none: "\<And>x. \<not> (\<exists>subs. bm_subscribers h x = Some subs \<and> cid \<in> set subs)"
    using i fresh by (auto simp: index_consistent_def)
  have i': "index_consistent ?h"
    unfolding index_consistent_def su
  proof (intro allI)
    fix cid' x
    show "(\<exists>subs. bm_subscribers h x = Some subs \<and> cid' \<in> set subs) \<longleftrightarrow>
          (\<exists>d. bm_clients ?h cid' = Some d \<and> x \<in> set (channels d))"
    proof (cases "cid' = cid")
      case True
      then show ?thesis using none [of x] by (simp add: cl)
    next
      case False
      then show ?thesis using i by (simp add: cl index_consistent_def)
    qed
  qed
  show ?thesis using k' i' e' by (simp add: hub_inv_def)
qed

lemma hub_inv_message:
  assumes inv: "hub_inv h"
  shows "hub_inv (state_of (ws_message h w raw))"
proof -
  have s: "state_of (catch_all x) = state_of x" for x :: "BroadcastManager outcome"
    by (cases x) simp_all
  show ?thesis
  proof (cases raw)
    case None
    then show ?thesis using inv by (simp add: ws_message_def)
  next
    case (Some msg)
    show ?thesis
    proof (cases "bm_wsToClient h w")
      case None
      then show ?thesis using inv Some by (simp add: ws_message_def)
    next
      case wc: (Some cid)
      show ?thesis
      proof (cases "cid = [] \<or> bm_clients h cid = None")
        case True
        then show ?thesis using inv Some wc by (auto simp: ws_message_def)
      next
        case False
        then obtain c where c: "bm_clients h cid = Some c" and ne: "cid \<noteq> []" by auto
        from inv c have "clientId c = cid" by (simp add: hub_inv_def clients_keyed_def)
        with c have cc: "bm_clients h (clientId c) = Some c" by simp
        show ?thesis
          using Some wc c ne handleSubscribe_inv [OF inv cc] hub_inv_unsub [OF inv cc]
            handleMessage_inv [OF inv cc] inv
          by (cases msg) (simp_all add: ws_message_def s)
      qed
    qed
  qed
qed

lemma hub_inv_close: "hub_inv h \<Longrightarrow> hub_inv (ws_close h w)"
  by (simp add: ws_close_def hub_inv_remove split: option.splits)

lemma hub_inv_reset: "hub_inv (reset h)"
  by (simp add: reset_def hub_inv_def clients_keyed_def index_consistent_def no_empty_entries_def)

lemma hub_inv_init: "hub_inv hub_init"
  by (simp add: hub_init_def hub_inv_def clients_keyed_def index_consistent_def no_empty_entries_def)

lemma channel_state:
  assumes "channel h p cfg = Some h'"
  shows "\<exists>d. h' = h\<lparr>bm_channels := bm_channels h @ [d]\<rparr>"
  using assms by (auto simp: channel_def split: option.splits)

lemma hub_inv_channel:
  assumes "hub_inv h" and "channel h p cfg = Some h'"
  shows "hub_inv h'"
proof -
  from channel_state [OF assms(2)] obtain d where "h' = h\<lparr>bm_channels := bm_channels h @ [d]\<rparr>" ..
  then show ?thesis using assms(1) hub_inv_tables [of h' h] by simp
qed

lemma reachable_hub_inv: "reachable h \<Longrightarrow> hub_inv h"
proof (induction rule: reachable.induct)
  case r_init
  show ?case by (rule hub_inv_init)
next
  case (r_channel h pat cfg h')
  then show ?case by (blast intro: hub_inv_channel)
next
  case (r_open h w cid ctx)
  then show ?case by (blast intro: hub_inv_open)
next
  case (r_message h w raw)
  then show ?case by (blast intro: hub_inv_message)
next
  case (r_close h w)
  then show ?case by (blast intro: hub_inv_close)
next
  case (r_send h pending event data)
  then show ?case using hub_inv_tables [of "PendingBroadcast_send h pending event data" h]
    by (simp add: send_tables)
next
  case (r_reset h)
  show ?case by (rule hub_inv_reset)
next
  case (r_transport h F)
  then show ?case using hub_inv_tables [of "h\<lparr>failing := F\<rparr>" h] by simp
qed

subsection \<open>The sets and the transports\<close>

lemma state_of_catch_all [simp]: "state_of (catch_all x) = state_of x"
  by (cases x) simp_all


















lemma matchChannel_Some:
  assumes "matchChannel defs n = Some (d, ps)"
  shows "\<exists>i<length defs. d = defs ! i \<and> accepts d n \<and> (\<forall>j<i. \<not> accepts (defs ! j) n) \<and>
           ps = extractParams (paramNames d) (the (RegExp_exec (regex d) n))"
  using assms
proof (induction defs)
  case Nil
  then show ?case by simp
next
  case (Cons d0 defs)
  show ?case
  proof (cases "RegExp_exec (regex d0) n")
    case (Some m)
    with Cons.prems have "d = d0" "ps = extractParams (paramNames d0) m" by auto
    with Some have "d = (d0 # defs) ! 0 \<and> accepts d n \<and> (\<forall>j<0. \<not> accepts ((d0 # defs) ! j) n) \<and>
           ps = extractParams (paramNames d) (the (RegExp_exec (regex d) n))"
      by (simp add: accepts_def)
    then show ?thesis by blast
  next
    case None
    with Cons.prems have "matchChannel defs n = Some (d, ps)" by simp
    from Cons.IH [OF this] obtain i where i: "i < length defs" "d = defs ! i" "accepts d n"
      "\<forall>j<i. \<not> accepts (defs ! j) n"
      "ps = extractParams (paramNames d) (the (RegExp_exec (regex d) n))" by blast
    have "\<forall>j<Suc i. \<not> accepts ((d0 # defs) ! j) n"
    proof (intro allI impI)
      fix j assume "j < Suc i"
      then show "\<not> accepts ((d0 # defs) ! j) n"
        using i(4) None by (cases j) (simp_all add: accepts_def)
    qed
    with i have "Suc i < length (d0 # defs) \<and> d = (d0 # defs) ! Suc i \<and> accepts d n \<and>
          (\<forall>j<Suc i. \<not> accepts ((d0 # defs) ! j) n) \<and>
          ps = extractParams (paramNames d) (the (RegExp_exec (regex d) n))" by simp
    then show ?thesis by blast
  qed
qed

lemma send_trace:
  "\<exists>rest. trace (PendingBroadcast_send h p ev d) = trace h @ rest \<and>
          (\<forall>e \<in> set rest. \<exists>w f. e = WsSend w f)"
  by (auto simp: PendingBroadcast_send_def broadcastToChannel_eq)

lemma run_sends_trace:
  "\<exists>rest. trace (run_sends sends h) = trace h @ rest \<and> (\<forall>e \<in> set rest. \<exists>w f. e = WsSend w f)"
proof (induction sends arbitrary: h)
  case Nil
  then show ?case by (simp add: run_sends_def)
next
  case (Cons s sends)
  obtain p ev d where s: "s = (p, ev, d)" by (cases s)
  have u: "run_sends (s # sends) h = run_sends sends (PendingBroadcast_send h p ev d)"
    by (simp add: run_sends_def s)
  from send_trace [of h p ev d] obtain r1
    where r1: "trace (PendingBroadcast_send h p ev d) = trace h @ r1"
      "\<forall>e \<in> set r1. \<exists>w f. e = WsSend w f" by blast
  from Cons.IH [of "PendingBroadcast_send h p ev d"] obtain r2
    where r2: "trace (run_sends sends (PendingBroadcast_send h p ev d)) =
                 trace (PendingBroadcast_send h p ev d) @ r2"
      "\<forall>e \<in> set r2. \<exists>w f. e = WsSend w f" by blast
  have "trace (run_sends (s # sends) h) = trace h @ (r1 @ r2) \<and>
        (\<forall>e \<in> set (r1 @ r2). \<exists>w f. e = WsSend w f)"
    using r1 r2 u by auto
  then show ?case by blast
qed

lemma handleMessage_dispatch:
  assumes "ch \<noteq> []" and "ev \<noteq> []" and "ch \<in> set (channels c)"
    and "matchChannel (bm_channels h) ch = Some (d, ps)"
    and "messages d = Some handlers" and "handlers ev = Some handler"
    and "ctxReady c = Some ctx0"
  shows "state_of (handleMessage h c ch ev data) =
           run_sends (handler_sends (handler (ctx0\<lparr>ctx_clientId := Some (clientId c)\<rparr>) ps data))
             (h\<lparr>bm_clients := (bm_clients h)(clientId c \<mapsto>
                    c\<lparr>ctxReady := Some (ctx0\<lparr>ctx_clientId := Some (clientId c)\<rparr>)\<rparr>),
                trace := trace h @
                  [HandlerCall ev (ctx0\<lparr>ctx_clientId := Some (clientId c)\<rparr>) ps data]\<rparr>)"
  using assms
  by (cases "handler (ctx0\<lparr>ctx_clientId := Some (clientId c)\<rparr>) ps data")
     (simp_all add: handleMessage_def Let_def handler_sends_def)

section \<open>Lemmas about the client\<close>

lemma scheduleReconnect_finite:
  assumes "reconnectAttempt b = enat k" and "enat k < maxReconnectAttempts b"
  shows "scheduleReconnect b =
           b\<lparr>reconnectAttempt := enat (k + 1),
             emitted := emitted b @ [EvReconnecting (k + 1)],
             reconnectTimer := Some (min (1000 * 2 ^ k) 30000)\<rparr>"
  using assms by (simp add: scheduleReconnect_def emit_def Let_def not_le [symmetric])

lemma fold_rawSend_open:
  "bc_ws b = Some OPEN \<Longrightarrow>
   fold (\<lambda>ch acc. rawSend acc (Sub ch)) chs b = b\<lparr>sent := sent b @ map Sub chs\<rparr>"
  by (induction chs arbitrary: b) (simp_all add: rawSend_def)

lemma flush_open:
  "bc_ws b = Some OPEN \<Longrightarrow> flush raws b = Done (b\<lparr>sent := sent b @ raws\<rparr>)"
  by (induction raws arbitrary: b) (simp_all add: WebSocket_send_def)

lemma welcome_open:
  assumes "bc_ws b = Some OPEN"
  shows "Broadcast_handleMessage b (Welcome ident) =
     Done (b\<lparr>bc_clientId := Some ident,
              sent := sent b @ map Sub (map_keys (subscriptions b)) @ queue b,
              queue := []\<rparr>)"
  using assms by (simp add: fold_rawSend_open flush_open Let_def)

lemma map_get_None_iff: "map_get kvs k = None \<longleftrightarrow> k \<notin> set (map_keys kvs)"
  by (induction kvs) (force simp: map_keys_def)+

lemma map_keys_map_set:
  "map_keys (map_set k v kvs) = (if k \<in> set (map_keys kvs) then map_keys kvs else map_keys kvs @ [k])"
  by (induction kvs) (force simp: map_keys_def)+

lemma map_keys_map_delete: "map_keys (map_delete k kvs) = filter (\<lambda>x. x \<noteq> k) (map_keys kvs)"
  by (induction kvs) (auto simp: map_keys_def map_delete_def)

lemma map_get_map_delete: "map_get (map_delete k kvs) k = None"
  by (simp add: map_get_None_iff map_keys_map_delete)

lemma subscribe_keys:
  "map_keys (subscriptions (fst (subscribe b ch))) = set_add ch (map_keys (subscriptions b))"
  by (auto simp: subscribe_def set_add_def map_keys_map_set rawSend_def Let_def
        map_get_None_iff [symmetric] split: option.splits)

lemma welcome_after_open:
  assumes "bc_ws b \<noteq> None"
  shows "onmessage (socket_opened b) (Some (Welcome ident)) =
           b\<lparr>bc_ws := Some OPEN, bc_connected := True, reconnectAttempt := 0,
             emitted := emitted b @ [EvConnected],
             bc_clientId := Some ident,
             sent := sent b @ map Sub (map_keys (subscriptions b)) @ queue b,
             queue := []\<rparr>"
proof -
  have o: "bc_ws (socket_opened b) = Some OPEN"
    using assms by (auto simp: socket_opened_def onopen_def emit_def)
  show ?thesis
    using assms
    by (simp add: onmessage_def welcome_open [OF o] del: Broadcast_handleMessage.simps)
       (auto simp: socket_opened_def onopen_def emit_def)
qed

lemma leave_parts:
  "snd (leave b s) = s\<lparr>listeners := []\<rparr>"
  "subscriptions (fst (leave b s)) = map_delete (sub_channel s) (subscriptions b)"
  "bc_ws (fst (leave b s)) = bc_ws b"
  "sent (fst (leave b s)) = sent (send b (Unsub (sub_channel s)))"
  "queue (fst (leave b s)) = queue (send b (Unsub (sub_channel s)))"
  by (simp_all add: leave_def Let_def send_def)

lemma ex_client_online_eq:
  "ex_client_online =
     \<lparr>bc_ws = Some OPEN, maxReconnectAttempts = \<infinity>, reconnectAttempt = 0,
      reconnectTimer = None, subscriptions = [], queue = [], bc_connected = True,
      bc_clientId = Some ''id1'', sent = [], emitted = [EvConnected], dispatched = []\<rparr>"
  by (simp add: ex_client_online_def Broadcast_new_def connect_def welcome_after_open map_keys_def)

lemma ex_client_subscribed_eq:
  "ex_client_subscribed =
     \<lparr>bc_ws = Some OPEN, maxReconnectAttempts = \<infinity>, reconnectAttempt = 0,
      reconnectTimer = None,
      subscriptions = [(''chat/1'', ex_subscription),
                       (''chat/2'', \<lparr>sub_channel = ''chat/2'', listeners = []\<rparr>)],
      queue = [], bc_connected = True,
      bc_clientId = Some ''id1'', sent = [Sub ''chat/1'', Sub ''chat/2''],
      emitted = [EvConnected], dispatched = []\<rparr>"
  by (simp add: ex_client_subscribed_def ex_client_online_eq subscribe_def rawSend_def Let_def
        on_channel_def Subscription_on_def ex_subscription_def)

lemma ex_client_offline_eq:
  "ex_client_offline =
     \<lparr>bc_ws = Some CLOSED, maxReconnectAttempts = \<infinity>, reconnectAttempt = 1,
      reconnectTimer = Some 1000,
      subscriptions = [(''chat/1'', ex_subscription),
                       (''chat/2'', \<lparr>sub_channel = ''chat/2'', listeners = []\<rparr>)],
      queue = [], bc_connected = False,
      bc_clientId = Some ''id1'', sent = [Sub ''chat/1'', Sub ''chat/2''],
      emitted = [EvConnected, EvDisconnected, EvReconnecting 1], dispatched = []\<rparr>"
  by (simp add: ex_client_offline_def ex_client_subscribed_eq socket_closed_def onclose_def
        scheduleReconnect_def emit_def Let_def zero_enat_def one_enat_def)

lemma ex_client_retry_eq:
  "ex_client_retry =
     \<lparr>bc_ws = Some CONNECTING, maxReconnectAttempts = \<infinity>, reconnectAttempt = 1,
      reconnectTimer = None,
      subscriptions = [(''chat/1'', ex_subscription),
                       (''chat/2'', \<lparr>sub_channel = ''chat/2'', listeners = []\<rparr>)],
      queue = [MsgIn ''chat/1'' ''send'' ''hello'', MsgIn ''chat/2'' ''send'' ''again''],
      bc_connected = False,
      bc_clientId = Some ''id1'', sent = [Sub ''chat/1'', Sub ''chat/2''],
      emitted = [EvConnected, EvDisconnected, EvReconnecting 1], dispatched = []\<rparr>"
  by (simp add: ex_client_retry_def ex_client_offline_eq send_def connect_def)

section \<open>The example runs evaluated\<close>

lemma parse_chat:
  "parsePattern ''chat/:id'' = Some (regex ex_chat, paramNames ex_chat)"
  unfolding ex_chat_def by code_simp

lemma parse_chats:
  "parsePattern ''chats/:id'' = Some (regex ex_chats, paramNames ex_chats)"
  unfolding ex_chats_def by code_simp

lemma exec_chat_1:
  "RegExp_exec (regex ex_chat) ''chat/1'' = Some [Some ''chat/1'', Some ''1'']"
  unfolding ex_chat_def by code_simp

lemma ex_registered_channel:
  "channel hub_init ''chat/:id'' (Config None (Some [''typing'' \<mapsto> ex_typing])) =
     Some (hub_init\<lparr>bm_channels := [ex_chat]\<rparr>)"
  "channel (hub_init\<lparr>bm_channels := [ex_chat]\<rparr>) ''chats/:id'' (Callback ex_authorize) =
     Some ex_registered"
  by (simp_all add: channel_def parse_chat parse_chats ex_registered_def hub_init_def)
     (simp_all add: ex_chat_def ex_chats_def)

lemma match_chat_1:
  "matchChannel (ex_chat # defs) ''chat/1'' = Some (ex_chat, [''id'' \<mapsto> ''1''])"
  by (simp add: exec_chat_1 extractParams_def) (simp add: ex_chat_def)

lemma set_add_Nil: "set_add x [] = [x]"
  by (simp add: set_add_def)

lemma ex_chat_fields:
  "authorize ex_chat = None" "pattern ex_chat = ''chat/:id''"
  "messages ex_chat = Some [''typing'' \<mapsto> ex_typing]" "paramNames ex_chat = [''id'']"
  by (simp_all add: ex_chat_def)

lemma ex_join_eq:
  assumes "bm_channels h = ex_chat # defs" and "w \<notin> failing h" and "cid \<noteq> []"
  shows "ex_join h w cid =
     h\<lparr>bm_wsToClient := (bm_wsToClient h)(w \<mapsto> cid),
       bm_clients := (bm_clients h)(cid \<mapsto> ex_conn w cid),
       bm_subscribers := (bm_subscribers h)(''chat/1'' \<mapsto>
          set_add cid (case bm_subscribers h ''chat/1'' of None \<Rightarrow> [] | Some subs \<Rightarrow> subs)),
       trace := trace h @ [WsSend w (Welcome cid), WsSend w (Ok ''chat/1'')]\<rparr>"
  using assms
  by (simp add: ex_join_def ws_open_def ws_send_def Let_def ws_message_def handleSubscribe_def
        match_chat_1 addSubscriber_def ex_conn_def ex_chat_fields set_add_Nil
        del: matchChannel.simps)

lemma ex_hub1_eq:
  "ex_hub1 = \<lparr>bm_channels = [ex_chat, ex_chats],
     bm_clients = [''c1'' \<mapsto> ex_conn 11 ''c1''],
     bm_subscribers = [''chat/1'' \<mapsto> [''c1'']],
     bm_wsToClient = [11 \<mapsto> ''c1''], failing = {},
     trace = [WsSend 11 (Welcome ''c1''), WsSend 11 (Ok ''chat/1'')]\<rparr>"
  unfolding ex_hub1_def
  by (subst ex_join_eq [where defs = "[ex_chats]"])
     (simp_all add: ex_registered_def hub_init_def set_add_def)

lemma ex_hub2_eq:
  "ex_hub2 = \<lparr>bm_channels = [ex_chat, ex_chats],
     bm_clients = [''c1'' \<mapsto> ex_conn 11 ''c1'', ''c2'' \<mapsto> ex_conn 12 ''c2''],
     bm_subscribers = [''chat/1'' \<mapsto> [''c1'', ''c2'']],
     bm_wsToClient = [11 \<mapsto> ''c1'', 12 \<mapsto> ''c2''], failing = {},
     trace = [WsSend 11 (Welcome ''c1''), WsSend 11 (Ok ''chat/1''),
              WsSend 12 (Welcome ''c2''), WsSend 12 (Ok ''chat/1'')]\<rparr>"
  unfolding ex_hub2_def
  by (subst ex_join_eq [where defs = "[ex_chats]"])
     (simp_all add: ex_hub1_eq set_add_def)

lemma ex_hub_eq:
  "ex_hub = \<lparr>bm_channels = [ex_chat, ex_chats],
     bm_clients = [''c1'' \<mapsto> ex_conn 11 ''c1'', ''c2'' \<mapsto> ex_conn 12 ''c2'',
                   ''c3'' \<mapsto> ex_conn 13 ''c3''],
     bm_subscribers = [''chat/1'' \<mapsto> [''c1'', ''c2'', ''c3'']],
     bm_wsToClient = [11 \<mapsto> ''c1'', 12 \<mapsto> ''c2'', 13 \<mapsto> ''c3''], failing = {},
     trace = [WsSend 11 (Welcome ''c1''), WsSend 11 (Ok ''chat/1''),
              WsSend 12 (Welcome ''c2''), WsSend 12 (Ok ''chat/1''),
              WsSend 13 (Welcome ''c3''), WsSend 13 (Ok ''chat/1'')]\<rparr>"
  unfolding ex_hub_def
  by (subst ex_join_eq [where defs = "[ex_chats]"])
     (simp_all add: ex_hub2_eq set_add_def)

lemma ex_join_reachable:
  assumes "reachable h" and "w \<notin> dom (bm_wsToClient h)" and "cid \<notin> dom (bm_clients h)"
  shows "reachable (ex_join h w cid)"
  unfolding ex_join_def by (intro r_message r_open assms)

lemma ex_registered_reachable: "reachable ex_registered"
  by (rule r_channel [OF r_channel [OF r_init ex_registered_channel(1)] ex_registered_channel(2)])

lemma ex_hub1_reachable: "reachable ex_hub1"
  unfolding ex_hub1_def
  by (rule ex_join_reachable [OF ex_registered_reachable]) (simp_all add: ex_registered_def hub_init_def)



lemma exec_chat_late: "accepts ex_chat_late ''chat/1''"
  by (simp add: accepts_def ex_chat_late_def exec_chat_1)

lemma exec_chats_7:
  "RegExp_exec (regex ex_chat) ''chats/7'' = None"
  "RegExp_exec (regex ex_chats) ''chats/7'' = Some [Some ''chats/7'', Some ''7'']"
  unfolding ex_chat_def ex_chats_def by code_simp+

lemma exec_chats_8:
  "RegExp_exec (regex ex_chat) ''chats/8'' = None"
  "RegExp_exec (regex ex_chats) ''chats/8'' = Some [Some ''chats/8'', Some ''8'']"
  unfolding ex_chat_def ex_chats_def by code_simp+

lemma exec_chats_9:
  "RegExp_exec (regex ex_chat) ''chats/9'' = None"
  "RegExp_exec (regex ex_chats) ''chats/9'' = Some [Some ''chats/9'', Some ''9'']"
  unfolding ex_chat_def ex_chats_def by code_simp+

lemma ex_chats_fields:
  "authorize ex_chats = Some ex_authorize" "pattern ex_chats = ''chats/:id''"
  "messages ex_chats = None" "paramNames ex_chats = [''id'']"
  by (simp_all add: ex_chats_def)

lemma match_chats:
  "matchChannel [ex_chat, ex_chats] ''chats/7'' = Some (ex_chats, [''id'' \<mapsto> ''7''])"
  "matchChannel [ex_chat, ex_chats] ''chats/8'' = Some (ex_chats, [''id'' \<mapsto> ''8''])"
  "matchChannel [ex_chat, ex_chats] ''chats/9'' = Some (ex_chats, [''id'' \<mapsto> ''9''])"
  by (simp_all add: exec_chats_7 exec_chats_8 exec_chats_9 extractParams_def ex_chats_fields)

lemma ex_authorize_results:
  "ex_authorize ctx [''id'' \<mapsto> ''7''] = Allow"
  "ex_authorize ctx [''id'' \<mapsto> ''8''] = Deny"
  "ex_authorize ctx [''id'' \<mapsto> ''9''] = AuthThrows"
  by (simp_all add: ex_authorize_def)

lemma ex_hub_tables:
  "bm_channels ex_hub = [ex_chat, ex_chats]"
  "bm_clients ex_hub ''c1'' = Some (ex_conn 11 ''c1'')"
  "bm_clients ex_hub ''c2'' = Some (ex_conn 12 ''c2'')"
  "bm_clients ex_hub ''c3'' = Some (ex_conn 13 ''c3'')"
  "bm_subscribers ex_hub ''chat/1'' = Some [''c1'', ''c2'', ''c3'']"
  "bm_subscribers ex_hub ''chats/7'' = None"
  "bm_wsToClient ex_hub 11 = Some ''c1''"
  "bm_wsToClient ex_hub 12 = Some ''c2''"
  "failing ex_hub = {}"
  by (simp_all add: ex_hub_eq)

lemma ex_conn_fields:
  "ws (ex_conn w cid) = w" "clientId (ex_conn w cid) = cid"
  "channels (ex_conn w cid) = [''chat/1'']" "ctxReady (ex_conn w cid) = Some ex_ctx"
  by (simp_all add: ex_conn_def)

lemma ex_hub_auth_eq:
  "ex_hub_auth = ex_hub\<lparr>
     bm_clients := (bm_clients ex_hub)(''c1'' \<mapsto> (ex_conn 11 ''c1'')\<lparr>channels := [''chat/1'', ''chats/7'']\<rparr>),
     bm_subscribers := (bm_subscribers ex_hub)(''chats/7'' \<mapsto> [''c1'']),
     trace := trace ex_hub @ [AuthCall ''chats/:id'' ex_ctx [''id'' \<mapsto> ''7''],
                              WsSend 11 (Ok ''chats/7'')]\<rparr>"
  by (simp add: ex_hub_auth_def ws_message_def ex_hub_tables handleSubscribe_def ex_conn_fields
        match_chats ex_chats_fields ex_authorize_results addSubscriber_def Let_def ws_send_def
        set_add_def del: matchChannel.simps)

lemma ex_hub_match:
  "matchChannel (bm_channels ex_hub) ''chats/8'' = Some (ex_chats, [''id'' \<mapsto> ''8''])"
  "matchChannel (bm_channels ex_hub) ''chats/9'' = Some (ex_chats, [''id'' \<mapsto> ''9''])"
  by (simp_all only: ex_hub_tables match_chats)

lemma ex_sender_ctx:
  "ex_typing (ex_ctx\<lparr>ctx_clientId := Some ''c2''\<rparr>) [''id'' \<mapsto> ''1''] data =
     Returns [(except (to ''chat/1'') ''c2'', ''typing'', data)]"
  by (simp add: ex_typing_def)

lemma ex_hub_recipients:
  "recipients (ex_hub\<lparr>bm_clients := (bm_clients ex_hub)(''c2'' \<mapsto> c)\<rparr>)
     (Some ''c2'') [''c1'', ''c2'', ''c3''] = [ex_conn 11 ''c1'', ex_conn 13 ''c3'']"
  by (simp add: recipients_Cons ex_hub_tables ex_conn_fields)


lemma targets_Nil [simp]: "targets h ex [] = []"
  by (simp add: targets_def)







lemma addSubscriber_held_stored:
  "bm_clients h (clientId c) = Some c \<Longrightarrow> addSubscriber_held h c ch = addSubscriber h c ch"
  by (simp add: addSubscriber_held_def addSubscriber_def)

lemma handleSubscribe_phases:
  assumes "bm_clients h (clientId c) = Some c"
  shows "handleSubscribe_at_once h c ch = handleSubscribe h c ch"
proof -
  have a: "addSubscriber_held (h\<lparr>trace := t\<rparr>) c ch = addSubscriber (h\<lparr>trace := t\<rparr>) c ch" for t
    using assms by (simp add: addSubscriber_held_stored)
  show ?thesis
    by (simp add: handleSubscribe_at_once_def handleSubscribe_begin_def handleSubscribe_def
          handleSubscribe_resume_def a Let_def
          split: option.splits auth_result.splits prod.splits)
qed

lemma ex_pending_eq:
  "ex_pending =
     Awaiting (ex_hub1\<lparr>trace := trace ex_hub1 @ [AuthCall ''chats/:id'' ex_ctx [''id'' \<mapsto> ''7'']]\<rparr>)
       (ex_conn 11 ''c1'') ''chats/7'' Allow"
proof -
  have m: "matchChannel (bm_channels ex_hub1) ''chats/7'' = Some (ex_chats, [''id'' \<mapsto> ''7''])"
    by (simp only: ex_hub1_eq BroadcastManager.simps match_chats)
  show ?thesis
    by (simp add: ex_pending_def handleSubscribe_begin_def m ex_conn_fields ex_chats_fields
          ex_authorize_results del: matchChannel.simps)
qed

lemma ex_closed_meanwhile_eq:
  "ex_closed_meanwhile =
     \<lparr>bm_channels = [ex_chat, ex_chats], bm_clients = Map.empty,
      bm_subscribers = [''chats/7'' \<mapsto> [''c1'']],
      bm_wsToClient = [11 \<mapsto> ''c1''], failing = {},
      trace = [WsSend 11 (Welcome ''c1''), WsSend 11 (Ok ''chat/1''),
               AuthCall ''chats/:id'' ex_ctx [''id'' \<mapsto> ''7''], WsSend 11 (Ok ''chats/7'')]\<rparr>"
  by (simp add: ex_closed_meanwhile_def ex_pending_eq handleSubscribe_resume_def
        addSubscriber_held_def ws_close_def removeClient_def remove_step_def ex_hub1_eq
        ex_conn_fields set_add_def set_delete_def ws_send_def Let_def)

lemma ex_reset_meanwhile_eq:
  "ex_reset_meanwhile =
     \<lparr>bm_channels = [], bm_clients = Map.empty,
      bm_subscribers = [''chats/7'' \<mapsto> [''c1'']],
      bm_wsToClient = [11 \<mapsto> ''c1''], failing = {},
      trace = [WsSend 11 (Welcome ''c1''), WsSend 11 (Ok ''chat/1''),
               AuthCall ''chats/:id'' ex_ctx [''id'' \<mapsto> ''7''], WsSend 11 (Ok ''chats/7'')]\<rparr>"
  by (simp add: ex_reset_meanwhile_def ex_pending_eq handleSubscribe_resume_def
        addSubscriber_held_def reset_def ex_hub1_eq
        ex_conn_fields set_add_def ws_send_def Let_def)

lemma parse_files:
  "map_option (\<lambda>(re, names). (source re, groups re, names)) (parsePattern ''files/:id/*path'') =
     Some (''^files/([^/]+)/(.+)$'', 2, [''path'', ''id''])"
  by code_simp

lemma exec_files:
  "Option.bind (parsePattern ''files/:id/*path'') (\<lambda>(re, names). RegExp_exec re ''files/7/a/b'') =
     Some [Some ''files/7/a/b'', Some ''7'', Some ''a/b'']"
  by code_simp

lemma ex_files_eq:
  "map_option (\<lambda>(d, ps). (pattern d, source (regex d), paramNames d, ps ''id'', ps ''path'')) ex_files =
     Some (''files/:id/*path'', ''^files/([^/]+)/(.+)$'', [''path'', ''id''], Some ''a/b'', Some ''7'')"
  by code_simp

lemma ex_path_eq:
  "map_option (\<lambda>(d, ps). (pattern d, source (regex d), paramNames d, ps ''path'')) ex_path =
     Some (''files/*path'', ''^files/(.+)$'', [''path''], Some ''a/b/c'')"
  by code_simp

section \<open>Theorems\<close>

subsection \<open>The index and the channel sets\<close>

text \<open>
  C1. The index and the channel sets agree, and the index has no empty entry, in every
  state that the hub reaches by handlers that run one after the other (lemma
  \<open>reachable_hub_inv\<close>). The code does not run them so: \<^verbatim>\<open>handleSubscribe\<close> waits for the
  authorization callback, and \<^verbatim>\<open>close\<close> or \<^verbatim>\<open>reset\<close> can run while it waits. In the run
  below the connection \<open>c1\<close> asks for \<^verbatim>\<open>chats/7\<close>, its transport closes while the callback
  is pending, and the callback then allows: the handler writes the id into the index of a
  connection that \<^verbatim>\<open>_clients\<close> no longer has. The index and the channel sets disagree,
  \<^verbatim>\<open>subscriberCount\<close> is 1 for a channel that no connection holds, and a later
  \<^verbatim>\<open>close\<close> of the transport does not remove the entry. The same happens when \<^verbatim>\<open>reset\<close>
  runs while the callback is pending.
\<close>

theorem subscribe_after_close_dangles:
  "bm_wsToClient ex_hub1 11 = Some ''c1'' \<and>
   bm_clients ex_hub1 ''c1'' = Some (ex_conn 11 ''c1'') \<and>
   index_consistent ex_hub1 \<and> no_empty_entries ex_hub1 \<and>
   ex_pending =
     Awaiting (ex_hub1\<lparr>trace := trace ex_hub1 @ [AuthCall ''chats/:id'' ex_ctx [''id'' \<mapsto> ''7'']]\<rparr>)
       (ex_conn 11 ''c1'') ''chats/7'' Allow \<and>
   bm_clients ex_closed_meanwhile ''c1'' = None \<and>
   bm_subscribers ex_closed_meanwhile ''chats/7'' = Some [''c1''] \<and>
   \<not> index_consistent ex_closed_meanwhile \<and>
   subscriberCount ex_closed_meanwhile ''chats/7'' = 1 \<and>
   ws_close ex_closed_meanwhile 11 = ex_closed_meanwhile \<and>
   bm_clients ex_reset_meanwhile ''c1'' = None \<and>
   bm_subscribers ex_reset_meanwhile ''chats/7'' = Some [''c1''] \<and>
   \<not> index_consistent ex_reset_meanwhile"
proof -
  have w: "bm_wsToClient ex_hub1 11 = Some ''c1''"
    and c: "bm_clients ex_hub1 ''c1'' = Some (ex_conn 11 ''c1'')"
    by (simp_all add: ex_hub1_eq)
  from reachable_hub_inv [OF ex_hub1_reachable]
  have i: "index_consistent ex_hub1" and n: "no_empty_entries ex_hub1"
    by (simp_all add: hub_inv_def)
  have cc: "bm_clients ex_closed_meanwhile ''c1'' = None"
    and cs: "bm_subscribers ex_closed_meanwhile ''chats/7'' = Some [''c1'']"
    and cw: "bm_wsToClient ex_closed_meanwhile 11 = Some ''c1''"
    by (simp_all add: ex_closed_meanwhile_eq)
  have ci: "\<not> index_consistent ex_closed_meanwhile"
  proof
    assume "index_consistent ex_closed_meanwhile"
    then have "(\<exists>subs. bm_subscribers ex_closed_meanwhile ''chats/7'' = Some subs \<and> ''c1'' \<in> set subs) \<longleftrightarrow>
               (\<exists>c. bm_clients ex_closed_meanwhile ''c1'' = Some c \<and> ''chats/7'' \<in> set (channels c))"
      unfolding index_consistent_def by blast
    with cc cs show False by simp
  qed
  have cn: "subscriberCount ex_closed_meanwhile ''chats/7'' = 1"
    by (simp add: subscriberCount_def cs)
  have cl: "ws_close ex_closed_meanwhile 11 = ex_closed_meanwhile"
    by (simp add: ws_close_def cw removeClient_def cc)
  have rc: "bm_clients ex_reset_meanwhile ''c1'' = None"
    and rs: "bm_subscribers ex_reset_meanwhile ''chats/7'' = Some [''c1'']"
    by (simp_all add: ex_reset_meanwhile_eq)
  have ri: "\<not> index_consistent ex_reset_meanwhile"
  proof
    assume "index_consistent ex_reset_meanwhile"
    then have "(\<exists>subs. bm_subscribers ex_reset_meanwhile ''chats/7'' = Some subs \<and> ''c1'' \<in> set subs) \<longleftrightarrow>
               (\<exists>c. bm_clients ex_reset_meanwhile ''c1'' = Some c \<and> ''chats/7'' \<in> set (channels c))"
      unfolding index_consistent_def by blast
    with rc rs show False by simp
  qed
  from w c i n ex_pending_eq cc cs ci cn cl rc rs ri show ?thesis by (intro conjI)
qed

subsection \<open>The parameters of a pattern with a wildcard\<close>

text \<open>
  C2. \<^verbatim>\<open>parsePattern\<close> replaces the wildcard first and the parameters second, and both
  replacements push on the same list: the name of the wildcard comes first in
  \<^verbatim>\<open>paramNames\<close>, wherever the wildcard is in the pattern, while its group is the last of
  the expression. For \<^verbatim>\<open>files/:id/*path\<close> the names are \<open>path\<close>, \<open>id\<close> and the groups of
  \<^verbatim>\<open>files/7/a/b\<close> are \<open>7\<close>, \<open>a/b\<close>: \<^verbatim>\<open>extractParams\<close> binds \<open>path\<close> to the segment
  \<open>7\<close> and \<open>id\<close> to the remainder \<open>a/b\<close>. With the wildcard alone, \<^verbatim>\<open>files/*path\<close>
  binds \<open>path\<close> to the remainder of \<^verbatim>\<open>files/a/b/c\<close>.
\<close>

theorem wildcard_name_pushed_first:
  "map_option (\<lambda>(re, names). (source re, groups re, names)) (parsePattern ''files/:id/*path'') =
     Some (''^files/([^/]+)/(.+)$'', 2, [''path'', ''id'']) \<and>
   Option.bind (parsePattern ''files/:id/*path'') (\<lambda>(re, names). RegExp_exec re ''files/7/a/b'') =
     Some [Some ''files/7/a/b'', Some ''7'', Some ''a/b''] \<and>
   map_option (\<lambda>(d, ps). (pattern d, source (regex d), paramNames d, ps ''id'', ps ''path'')) ex_files =
     Some (''files/:id/*path'', ''^files/([^/]+)/(.+)$'', [''path'', ''id''], Some ''a/b'', Some ''7'') \<and>
   map_option (\<lambda>(d, ps). (pattern d, source (regex d), paramNames d, ps ''path'')) ex_path =
     Some (''files/*path'', ''^files/(.+)$'', [''path''], Some ''a/b/c'')"
proof -
  note parse_files
  moreover note exec_files
  moreover note ex_files_eq
  moreover note ex_path_eq
  ultimately show ?thesis by (intro conjI)
qed

subsection \<open>Resolution of a channel name\<close>

text \<open>
  C3. \<^verbatim>\<open>matchChannel\<close> returns the first definition, in the order of the list, whose
  matcher accepts the name, with the parameters extracted from that match, and no match
  exactly when no definition accepts the name. It is a function of the list and the name
  and returns nothing but its result. \<^verbatim>\<open>channel\<close> appends the new definition at the end
  of the list and changes nothing else, so the order of the list is the order of
  registration.
\<close>

theorem resolve_first_match:
  "(\<forall>i. i < length defs \<and> accepts (defs ! i) n \<and> (\<forall>j<i. \<not> accepts (defs ! j) n) \<longrightarrow>
        matchChannel defs n =
          Some (defs ! i, extractParams (paramNames (defs ! i))
                            (the (RegExp_exec (regex (defs ! i)) n)))) \<and>
   (matchChannel defs n = None \<longleftrightarrow> (\<forall>d \<in> set defs. \<not> accepts d n)) \<and>
   (\<forall>d ps. matchChannel defs n = Some (d, ps) \<longrightarrow>
        (\<exists>i<length defs. d = defs ! i \<and> accepts d n \<and> (\<forall>j<i. \<not> accepts (defs ! j) n))) \<and>
   (\<forall>h pat cfg h'. channel h pat cfg = Some h' \<longrightarrow>
        (\<exists>d. pattern d = pat \<and> h' = h\<lparr>bm_channels := bm_channels h @ [d]\<rparr>))"
proof (intro conjI allI impI)
  fix i
  assume "i < length defs \<and> accepts (defs ! i) n \<and> (\<forall>j<i. \<not> accepts (defs ! j) n)"
  then show "matchChannel defs n =
          Some (defs ! i, extractParams (paramNames (defs ! i))
                            (the (RegExp_exec (regex (defs ! i)) n)))"
    by (simp add: matchChannel_first)
next
  show "matchChannel defs n = None \<longleftrightarrow> (\<forall>d \<in> set defs. \<not> accepts d n)"
    by (rule matchChannel_None_iff)
next
  fix d ps
  assume "matchChannel defs n = Some (d, ps)"
  from matchChannel_Some [OF this]
  show "\<exists>i<length defs. d = defs ! i \<and> accepts d n \<and> (\<forall>j<i. \<not> accepts (defs ! j) n)"
    by blast
next
  fix h pat cfg h'
  assume "channel h pat cfg = Some h'"
  from channel_appends [OF this]
  show "\<exists>d. pattern d = pat \<and> h' = h\<lparr>bm_channels := bm_channels h @ [d]\<rparr>"
    by blast
qed

theorem resolve_first_match_witness:
  "accepts ex_chat ''chat/1'' \<and> accepts ex_chat_late ''chat/1'' \<and>
   map_option (\<lambda>(d, ps). (pattern d, ps ''id'', ps ''room''))
     (matchChannel [ex_chat, ex_chat_late] ''chat/1'') = Some (''chat/:id'', Some ''1'', None) \<and>
   matchChannel [] ''chat/1'' = None"
proof -
  have a: "accepts ex_chat ''chat/1''"
    by (simp add: accepts_def exec_chat_1)
  let ?defs = "[ex_chat, ex_chat_late]"
  from resolve_first_match [of ?defs "''chat/1''"]
  have "0 < length ?defs \<and> accepts (?defs ! 0) ''chat/1'' \<and>
          (\<forall>j<0. \<not> accepts (?defs ! j) ''chat/1'') \<longrightarrow>
        matchChannel ?defs ''chat/1'' =
          Some (?defs ! 0, extractParams (paramNames (?defs ! 0))
                  (the (RegExp_exec (regex (?defs ! 0)) ''chat/1'')))"
    by (elim conjE allE [where x = 0])
  with a have "matchChannel [ex_chat, ex_chat_late] ''chat/1'' =
          Some (ex_chat, extractParams (paramNames ex_chat) (the (RegExp_exec (regex ex_chat) ''chat/1'')))"
    by simp
  then show ?thesis
    using a exec_chat_late
    by (simp add: exec_chat_1 extractParams_def ex_chat_fields)
qed

subsection \<open>Subscribing twice\<close>

text \<open>
  C4. For a connection that already has the channel in its set, \<^verbatim>\<open>handleSubscribe\<close> is
  the write of \<^verbatim>\<open>ok\<close> for the channel to the connection's transport and nothing else,
  and it returns before any \<^verbatim>\<open>await\<close>:
  on a working transport the trace grows by that one frame, so no authorization callback
  is called, and the index, the connection table and every subscriber count are as
  before.
\<close>

theorem resubscribe_idempotent:
  assumes "ch \<noteq> []" and "ch \<in> set (channels c)"
  shows "handleSubscribe h c ch = ws_send h (ws c) (Ok ch) \<and>
         handleSubscribe_begin h c ch = Returned (ws_send h (ws c) (Ok ch)) \<and>
         (ws c \<notin> failing h \<longrightarrow>
            handleSubscribe h c ch = Done (h\<lparr>trace := trace h @ [WsSend (ws c) (Ok ch)]\<rparr>)) \<and>
         bm_subscribers (state_of (handleSubscribe h c ch)) = bm_subscribers h \<and>
         bm_clients (state_of (handleSubscribe h c ch)) = bm_clients h \<and>
         (\<forall>x. subscriberCount (state_of (handleSubscribe h c ch)) x = subscriberCount h x)"
  using assms
  by (simp add: resub ws_send_tables subscriberCount_def handleSubscribe_begin_def)
     (simp add: ws_send_def)

theorem resubscribe_idempotent_witness:
  "''chats/7'' \<in> set (channels ((ex_conn 11 ''c1'')\<lparr>channels := [''chat/1'', ''chats/7'']\<rparr>)) \<and>
   bm_clients ex_hub_auth ''c1'' = Some ((ex_conn 11 ''c1'')\<lparr>channels := [''chat/1'', ''chats/7'']\<rparr>) \<and>
   trace ex_hub_auth = trace ex_hub @ [AuthCall ''chats/:id'' ex_ctx [''id'' \<mapsto> ''7''],
                                       WsSend 11 (Ok ''chats/7'')] \<and>
   ws_message ex_hub_auth 11 (Some (Sub ''chats/7'')) =
     Done (ex_hub_auth\<lparr>trace := trace ex_hub_auth @ [WsSend 11 (Ok ''chats/7'')]\<rparr>) \<and>
   subscriberCount ex_hub_auth ''chats/7'' = 1 \<and>
   subscriberCount (state_of (ws_message ex_hub_auth 11 (Some (Sub ''chats/7'')))) ''chats/7'' = 1"
proof -
  let ?c = "(ex_conn 11 ''c1'')\<lparr>channels := [''chat/1'', ''chats/7'']\<rparr>"
  have c: "bm_clients ex_hub_auth ''c1'' = Some ?c" and w: "bm_wsToClient ex_hub_auth 11 = Some ''c1''"
    and f: "ws ?c \<notin> failing ex_hub_auth"
    and n: "subscriberCount ex_hub_auth ''chats/7'' = 1"
    by (simp_all add: ex_hub_auth_eq ex_hub_tables ex_conn_fields subscriberCount_def)
  have m: "ws_message ex_hub_auth 11 (Some (Sub ''chats/7'')) =
           catch_all (handleSubscribe ex_hub_auth ?c ''chats/7'')"
    by (simp add: ws_message_def c w)
  have ne: "''chats/7'' \<noteq> []" and mem: "''chats/7'' \<in> set (channels ?c)"
    by simp_all
  from resubscribe_idempotent [OF ne mem, of ex_hub_auth] f
  have r: "handleSubscribe ex_hub_auth ?c ''chats/7'' =
             Done (ex_hub_auth\<lparr>trace := trace ex_hub_auth @ [WsSend (ws ?c) (Ok ''chats/7'')]\<rparr>)"
    by blast
  have t: "trace ex_hub_auth = trace ex_hub @ [AuthCall ''chats/:id'' ex_ctx [''id'' \<mapsto> ''7''],
                                       WsSend 11 (Ok ''chats/7'')]"
    by (simp add: ex_hub_auth_eq)
  have m2: "ws_message ex_hub_auth 11 (Some (Sub ''chats/7'')) =
     Done (ex_hub_auth\<lparr>trace := trace ex_hub_auth @ [WsSend 11 (Ok ''chats/7'')]\<rparr>)"
    by (simp add: m r ex_conn_fields)
  have n2: "subscriberCount (state_of (ws_message ex_hub_auth 11 (Some (Sub ''chats/7'')))) ''chats/7'' = 1"
    using n by (simp add: m2 subscriberCount_def)
  from mem c t m2 n n2 show ?thesis by (intro conjI)
qed

subsection \<open>Denied and failed authorization\<close>

text \<open>
  C5. A \<^verbatim>\<open>sub\<close> for a channel that the connection does not hold and whose definition has
  an authorization callback: when the callback returns false, the connection's transport
  (if it works) gets \<^verbatim>\<open>err\<close> with the reason \<^verbatim>\<open>unauthorized\<close>; when the callback
  throws, or the connection's context is rejected, it gets \<^verbatim>\<open>err\<close> with the different
  reason \<^verbatim>\<open>authorization failed\<close>. In every one of these cases, whether the transport
  works or not, the index and the channel sets are as before; and when the handler was
  suspended at the callback, its rest leaves them as they are when it resumes, whatever
  ran meanwhile. The \<^verbatim>\<open>message\<close> handler returns normally on every frame.
\<close>

theorem unauthorized_subscribe:
  assumes "ch \<noteq> []" and "ch \<notin> set (channels c)"
    and "matchChannel (bm_channels h) ch = Some (d, ps)" and "authorize d = Some cb"
  shows "(ctxReady c = Some ctx \<and> cb ctx ps = Deny \<and> ws c \<notin> failing h \<longrightarrow>
            handleSubscribe h c ch =
              Done (h\<lparr>trace := trace h @ [AuthCall (pattern d) ctx ps,
                                          WsSend (ws c) (Err ch ''unauthorized'')]\<rparr>)) \<and>
         (ctxReady c = Some ctx \<and> cb ctx ps = AuthThrows \<and> ws c \<notin> failing h \<longrightarrow>
            handleSubscribe h c ch =
              Done (h\<lparr>trace := trace h @ [AuthCall (pattern d) ctx ps,
                                          WsSend (ws c) (Err ch ''authorization failed'')]\<rparr>)) \<and>
         (ctxReady c = None \<and> ws c \<notin> failing h \<longrightarrow>
            handleSubscribe h c ch =
              Done (h\<lparr>trace := trace h @ [WsSend (ws c) (Err ch ''authorization failed'')]\<rparr>)) \<and>
         (ctxReady c = None \<or> ctxReady c = Some ctx \<and> cb ctx ps \<noteq> Allow \<longrightarrow>
            bm_subscribers (state_of (handleSubscribe h c ch)) = bm_subscribers h \<and>
            bm_clients (state_of (handleSubscribe h c ch)) = bm_clients h) \<and>
         (allowed \<noteq> Allow \<longrightarrow>
            bm_subscribers (state_of (handleSubscribe_resume h' c ch allowed)) = bm_subscribers h' \<and>
            bm_clients (state_of (handleSubscribe_resume h' c ch allowed)) = bm_clients h') \<and>
         ''unauthorized'' \<noteq> ''authorization failed'' \<and>
         (\<exists>h'. ws_message h w raw = Done h')"
proof -
  have s: "handleSubscribe h c ch =
     (case ctxReady c of
        None \<Rightarrow> ws_send h (ws c) (Err ch ''authorization failed'')
      | Some ctx \<Rightarrow>
          (let h1 = h\<lparr>trace := trace h @ [AuthCall (pattern d) ctx ps]\<rparr>
           in case cb ctx ps of
                AuthThrows \<Rightarrow> ws_send h1 (ws c) (Err ch ''authorization failed'')
              | Deny \<Rightarrow>
                  (case ws_send h1 (ws c) (Err ch ''unauthorized'') of
                     Done h2 \<Rightarrow> Done h2
                   | Thrown h2 \<Rightarrow> ws_send h2 (ws c) (Err ch ''authorization failed''))
              | Allow \<Rightarrow> addSubscriber h1 c ch))"
    using assms by (simp add: handleSubscribe_def)
  have a: "ctxReady c = Some ctx \<and> cb ctx ps = Deny \<and> ws c \<notin> failing h \<longrightarrow>
            handleSubscribe h c ch =
              Done (h\<lparr>trace := trace h @ [AuthCall (pattern d) ctx ps,
                                          WsSend (ws c) (Err ch ''unauthorized'')]\<rparr>)"
    by (simp add: s ws_send_def)
  have b: "ctxReady c = Some ctx \<and> cb ctx ps = AuthThrows \<and> ws c \<notin> failing h \<longrightarrow>
            handleSubscribe h c ch =
              Done (h\<lparr>trace := trace h @ [AuthCall (pattern d) ctx ps,
                                          WsSend (ws c) (Err ch ''authorization failed'')]\<rparr>)"
    by (simp add: s ws_send_def)
  have n: "ctxReady c = None \<and> ws c \<notin> failing h \<longrightarrow>
            handleSubscribe h c ch =
              Done (h\<lparr>trace := trace h @ [WsSend (ws c) (Err ch ''authorization failed'')]\<rparr>)"
    by (simp add: s ws_send_def)
  have t: "ctxReady c = None \<or> ctxReady c = Some ctx \<and> cb ctx ps \<noteq> Allow \<longrightarrow>
            bm_subscribers (state_of (handleSubscribe h c ch)) = bm_subscribers h \<and>
            bm_clients (state_of (handleSubscribe h c ch)) = bm_clients h"
    by (cases "cb ctx ps") (auto simp: s ws_send_def)
  have p: "allowed \<noteq> Allow \<longrightarrow>
            bm_subscribers (state_of (handleSubscribe_resume h' c ch allowed)) = bm_subscribers h' \<and>
            bm_clients (state_of (handleSubscribe_resume h' c ch allowed)) = bm_clients h'"
    by (cases allowed) (auto simp: handleSubscribe_resume_def ws_send_def)
  have r: "\<exists>h'. ws_message h w raw = Done h'"
    by (rule ws_message_Done)
  from a b n t p r show ?thesis by simp
qed

theorem unauthorized_subscribe_witness:
  "ex_authorize ex_ctx [''id'' \<mapsto> ''8''] = Deny \<and>
   ex_authorize ex_ctx [''id'' \<mapsto> ''9''] = AuthThrows \<and>
   ws_message ex_hub 12 (Some (Sub ''chats/8'')) =
     Done (ex_hub\<lparr>trace := trace ex_hub @ [AuthCall ''chats/:id'' ex_ctx [''id'' \<mapsto> ''8''],
                                            WsSend 12 (Err ''chats/8'' ''unauthorized'')]\<rparr>) \<and>
   ws_message ex_hub 12 (Some (Sub ''chats/9'')) =
     Done (ex_hub\<lparr>trace := trace ex_hub @ [AuthCall ''chats/:id'' ex_ctx [''id'' \<mapsto> ''9''],
                                            WsSend 12 (Err ''chats/9'' ''authorization failed'')]\<rparr>) \<and>
   subscriberCount (state_of (ws_message ex_hub 12 (Some (Sub ''chats/8'')))) ''chats/8'' = 0"
proof -
  let ?c = "ex_conn 12 ''c2''"
  have m: "ws_message ex_hub 12 (Some (Sub x)) = catch_all (handleSubscribe ex_hub ?c x)" for x
    by (simp add: ws_message_def ex_hub_tables)
  have f: "ws ?c \<notin> failing ex_hub" and cx: "ctxReady ?c = Some ex_ctx"
    by (simp_all add: ex_hub_tables ex_conn_fields)
  have d8: "handleSubscribe ex_hub ?c ''chats/8'' =
     Done (ex_hub\<lparr>trace := trace ex_hub @ [AuthCall (pattern ex_chats) ex_ctx [''id'' \<mapsto> ''8''],
                                            WsSend (ws ?c) (Err ''chats/8'' ''unauthorized'')]\<rparr>)"
    using unauthorized_subscribe [of "''chats/8''" ?c ex_hub ex_chats "[''id'' \<mapsto> ''8'']"
        ex_authorize ex_ctx] f cx
    by (simp add: ex_hub_match ex_chats_fields ex_conn_fields ex_authorize_results)
  have d9: "handleSubscribe ex_hub ?c ''chats/9'' =
     Done (ex_hub\<lparr>trace := trace ex_hub @ [AuthCall (pattern ex_chats) ex_ctx [''id'' \<mapsto> ''9''],
                                            WsSend (ws ?c) (Err ''chats/9'' ''authorization failed'')]\<rparr>)"
    using unauthorized_subscribe [of "''chats/9''" ?c ex_hub ex_chats "[''id'' \<mapsto> ''9'']"
        ex_authorize ex_ctx] f cx
    by (simp add: ex_hub_match ex_chats_fields ex_conn_fields ex_authorize_results)
  have n: "bm_subscribers ex_hub ''chats/8'' = None"
    by (simp add: ex_hub_eq)
  show ?thesis
    by (simp add: m d8 d9 ex_authorize_results ex_chats_fields ex_conn_fields subscriberCount_def n)
qed

subsection \<open>Fan-out of a broadcast\<close>



subsection \<open>Reconnection backoff\<close>

text \<open>
  C7. When a retry is scheduled (the counter \<open>k\<close> is below the maximum), the counter
  becomes \<open>n = k + 1\<close> first, one \<^verbatim>\<open>reconnecting\<close> event carrying \<open>n\<close> is emitted, and
  the timer is set to \<open>min (1000 * 2 ^ (n - 1)) 30000\<close> milliseconds; for the attempts
  1 to 6 the delays are 1000, 2000, 4000, 8000, 16000 and 30000.
\<close>

theorem backoff_schedule:
  assumes "reconnectAttempt b = enat k" and "enat k < maxReconnectAttempts b"
  shows "reconnectAttempt (scheduleReconnect b) = enat (k + 1) \<and>
         emitted (scheduleReconnect b) = emitted b @ [EvReconnecting (k + 1)] \<and>
         reconnectTimer (scheduleReconnect b) = Some (min (1000 * 2 ^ ((k + 1) - 1)) 30000) \<and>
         reconnectTimer (scheduleReconnect b) = Some (backoff_delay (k + 1)) \<and>
         map backoff_delay [1, 2, 3, 4, 5, 6] = [1000, 2000, 4000, 8000, 16000, 30000]"
  using assms by (simp add: scheduleReconnect_finite backoff_delay_def)

theorem backoff_schedule_witness:
  "reconnectAttempt ((Broadcast_new \<infinity>)\<lparr>reconnectAttempt := enat 5\<rparr>) = enat 5 \<and>
   enat 5 < maxReconnectAttempts ((Broadcast_new \<infinity>)\<lparr>reconnectAttempt := enat 5\<rparr>) \<and>
   reconnectAttempt (scheduleReconnect ((Broadcast_new \<infinity>)\<lparr>reconnectAttempt := enat 5\<rparr>)) = enat 6 \<and>
   emitted (scheduleReconnect ((Broadcast_new \<infinity>)\<lparr>reconnectAttempt := enat 5\<rparr>)) = [EvReconnecting 6] \<and>
   reconnectTimer (scheduleReconnect ((Broadcast_new \<infinity>)\<lparr>reconnectAttempt := enat 5\<rparr>)) = Some 30000"
  using backoff_schedule [of "(Broadcast_new \<infinity>)\<lparr>reconnectAttempt := enat 5\<rparr>" 5]
  by (simp add: Broadcast_new_def connect_def)

subsection \<open>Replay after reconnection\<close>

text \<open>
  C8. When the socket of a client opens again and the server's \<^verbatim>\<open>welcome\<close> is handled,
  the client has emitted \<^verbatim>\<open>connected\<close>, its attempt counter is zero, and it has
  transmitted, after what it had sent before, one \<^verbatim>\<open>sub\<close> for every channel it holds, in
  the order of its subscription map, and then the whole queue in its order; the queue is
  empty afterwards. The map keeps the channels in the order of their first
  \<^verbatim>\<open>subscribe\<close>, and a message sent while disconnected goes to the end of the queue.
\<close>

theorem reconnect_replay:
  assumes "bc_ws b \<noteq> None"
  shows "onmessage (socket_opened b) (Some (Welcome ident)) =
           b\<lparr>bc_ws := Some OPEN, bc_connected := True, reconnectAttempt := 0,
             emitted := emitted b @ [EvConnected],
             bc_clientId := Some ident,
             sent := sent b @ map Sub (map_keys (subscriptions b)) @ queue b,
             queue := []\<rparr> \<and>
         emitted (socket_opened b) = emitted b @ [EvConnected] \<and>
         reconnectAttempt (socket_opened b) = 0 \<and>
         map_keys (subscriptions (fst (subscribe b ch))) = set_add ch (map_keys (subscriptions b)) \<and>
         (\<not> bc_connected b \<longrightarrow> queue (send b msg) = queue b @ [msg] \<and> sent (send b msg) = sent b)"
  using welcome_after_open [OF assms] subscribe_keys
  by (simp add: socket_opened_def onopen_def emit_def send_def)

theorem reconnect_replay_witness:
  "bc_ws ex_client_retry \<noteq> None \<and>
   sent (onmessage (socket_opened ex_client_retry) (Some (Welcome ''id2''))) =
     [Sub ''chat/1'', Sub ''chat/2'', Sub ''chat/1'', Sub ''chat/2'',
      MsgIn ''chat/1'' ''send'' ''hello'', MsgIn ''chat/2'' ''send'' ''again''] \<and>
   queue (onmessage (socket_opened ex_client_retry) (Some (Welcome ''id2''))) = [] \<and>
   emitted (onmessage (socket_opened ex_client_retry) (Some (Welcome ''id2''))) =
     [EvConnected, EvDisconnected, EvReconnecting 1, EvConnected] \<and>
   reconnectAttempt (onmessage (socket_opened ex_client_retry) (Some (Welcome ''id2''))) = 0"
  using reconnect_replay [of ex_client_retry "''id2''"]
  by (simp add: ex_client_retry_eq map_keys_def)

subsection \<open>Leaving a channel\<close>

text \<open>
  C9. \<^verbatim>\<open>leave\<close> clears the listeners of the subscription and removes the channel from
  the client's map. For a client that is disconnected the code does not drop the
  \<^verbatim>\<open>unsub\<close> frame: \<^verbatim>\<open>leave\<close> hands it to \<^verbatim>\<open>send\<close>, which puts it on the queue, and the
  queue is transmitted when the next \<^verbatim>\<open>welcome\<close> is handled. In the first run below the
  new socket gets \<^verbatim>\<open>sub chat/2\<close> and then \<^verbatim>\<open>unsub chat/1\<close>. In the second run, where the
  client has subscribed to \<^verbatim>\<open>chat/1\<close> again before it reconnects, the new socket gets
  \<^verbatim>\<open>sub chat/2\<close>, \<^verbatim>\<open>sub chat/1\<close> and then the stale \<^verbatim>\<open>unsub chat/1\<close>, while the client
  still holds \<^verbatim>\<open>chat/1\<close>.
\<close>

theorem leave_offline_unsub_transmitted:
  "\<not> bc_connected ex_client_offline \<and>
   map_get (subscriptions ex_client_offline) ''chat/1'' = Some ex_subscription \<and>
   listeners ex_subscription = [(''message'', [1])] \<and>
   listeners (snd (leave ex_client_offline ex_subscription)) = [] \<and>
   map_keys (subscriptions ex_client_left) = [''chat/2''] \<and>
   sent ex_client_left = sent ex_client_offline \<and>
   queue ex_client_left = [Unsub ''chat/1''] \<and>
   sent ex_client_left_online =
     sent ex_client_offline @ [Sub ''chat/2'', Unsub ''chat/1''] \<and>
   map_keys (subscriptions ex_client_rejoined) = [''chat/2'', ''chat/1''] \<and>
   sent ex_client_rejoined_online =
     sent ex_client_offline @ [Sub ''chat/2'', Sub ''chat/1'', Unsub ''chat/1''] \<and>
   map_keys (subscriptions ex_client_rejoined_online) = [''chat/2'', ''chat/1'']"
proof -
  have l: "ex_client_left =
     ex_client_offline\<lparr>subscriptions := [(''chat/2'', \<lparr>sub_channel = ''chat/2'', listeners = []\<rparr>)],
                        queue := [Unsub ''chat/1'']\<rparr>"
    by (simp add: ex_client_left_def ex_client_offline_eq leave_def send_def Let_def
          map_delete_def ex_subscription_def)
  have r: "ex_client_rejoined =
     ex_client_offline\<lparr>subscriptions := [(''chat/2'', \<lparr>sub_channel = ''chat/2'', listeners = []\<rparr>),
                                           (''chat/1'', \<lparr>sub_channel = ''chat/1'', listeners = []\<rparr>)],
                        queue := [Unsub ''chat/1'']\<rparr>"
    by (simp add: ex_client_rejoined_def l subscribe_def Let_def)
       (simp add: ex_client_offline_eq)
  have lo: "ex_client_left_online =
     (connect ex_client_left)\<lparr>bc_ws := Some OPEN, bc_connected := True, reconnectAttempt := 0,
        emitted := emitted ex_client_left @ [EvConnected], bc_clientId := Some ''id2'',
        sent := sent ex_client_left @ map Sub (map_keys (subscriptions ex_client_left))
                  @ queue ex_client_left,
        queue := []\<rparr>"
    unfolding ex_client_left_online_def
    by (subst welcome_after_open) (simp_all add: connect_def)
  have ro: "ex_client_rejoined_online =
     (connect ex_client_rejoined)\<lparr>bc_ws := Some OPEN, bc_connected := True, reconnectAttempt := 0,
        emitted := emitted ex_client_rejoined @ [EvConnected], bc_clientId := Some ''id2'',
        sent := sent ex_client_rejoined @ map Sub (map_keys (subscriptions ex_client_rejoined))
                  @ queue ex_client_rejoined,
        queue := []\<rparr>"
    unfolding ex_client_rejoined_online_def
    by (subst welcome_after_open) (simp_all add: connect_def)
  have a: "\<not> bc_connected ex_client_offline"
    and b: "map_get (subscriptions ex_client_offline) ''chat/1'' = Some ex_subscription"
    by (simp_all add: ex_client_offline_eq)
  have c: "listeners ex_subscription = [(''message'', [1])]"
    and d: "listeners (snd (leave ex_client_offline ex_subscription)) = []"
    by (simp_all add: ex_subscription_def leave_parts)
  have e: "map_keys (subscriptions ex_client_left) = [''chat/2'']"
    and f: "sent ex_client_left = sent ex_client_offline"
    and g: "queue ex_client_left = [Unsub ''chat/1'']"
    by (simp_all add: l map_keys_def)
  have h: "sent ex_client_left_online = sent ex_client_offline @ [Sub ''chat/2'', Unsub ''chat/1'']"
    by (simp add: lo e f g)
  have i: "map_keys (subscriptions ex_client_rejoined) = [''chat/2'', ''chat/1'']"
    and j: "sent ex_client_rejoined = sent ex_client_offline"
    and k: "queue ex_client_rejoined = [Unsub ''chat/1'']"
    by (simp_all add: r map_keys_def)
  have m: "sent ex_client_rejoined_online =
             sent ex_client_offline @ [Sub ''chat/2'', Sub ''chat/1'', Unsub ''chat/1'']"
    by (simp add: ro i j k)
  have n: "map_keys (subscriptions ex_client_rejoined_online) = [''chat/2'', ''chat/1'']"
    using i by (simp add: ro connect_def)
  from a b c d e f g h i m n show ?thesis by (intro conjI)
qed

subsection \<open>The sender's id in the handler's context\<close>

text \<open>
  C10. When \<^verbatim>\<open>handleMessage\<close> dispatches a client message to a handler, the context the
  handler is called with is the connection's context with \<^verbatim>\<open>clientId\<close> set to the id of
  the sending connection: the call is the first new event of the trace, before anything
  the handler broadcasts, and the same context is kept for the connection.
\<close>

theorem handler_context_has_sender:
  assumes "ch \<noteq> []" and "ev \<noteq> []" and "ch \<in> set (channels c)"
    and "matchChannel (bm_channels h) ch = Some (d, ps)"
    and "messages d = Some handlers" and "handlers ev = Some handler"
    and "ctxReady c = Some ctx0"
  shows "state_of (handleMessage h c ch ev data) =
           run_sends (handler_sends (handler (ctx0\<lparr>ctx_clientId := Some (clientId c)\<rparr>) ps data))
             (h\<lparr>bm_clients := (bm_clients h)(clientId c \<mapsto>
                    c\<lparr>ctxReady := Some (ctx0\<lparr>ctx_clientId := Some (clientId c)\<rparr>)\<rparr>),
                trace := trace h @
                  [HandlerCall ev (ctx0\<lparr>ctx_clientId := Some (clientId c)\<rparr>) ps data]\<rparr>) \<and>
         (\<exists>rest. trace (state_of (handleMessage h c ch ev data)) =
                   trace h @ HandlerCall ev (ctx0\<lparr>ctx_clientId := Some (clientId c)\<rparr>) ps data # rest \<and>
                 (\<forall>e \<in> set rest. \<exists>w f. e = WsSend w f)) \<and>
         ctx_clientId (ctx0\<lparr>ctx_clientId := Some (clientId c)\<rparr>) = Some (clientId c)"
proof -
  let ?ctx = "ctx0\<lparr>ctx_clientId := Some (clientId c)\<rparr>"
  let ?h2 = "h\<lparr>bm_clients := (bm_clients h)(clientId c \<mapsto> c\<lparr>ctxReady := Some ?ctx\<rparr>),
                trace := trace h @ [HandlerCall ev ?ctx ps data]\<rparr>"
  have e: "state_of (handleMessage h c ch ev data) =
             run_sends (handler_sends (handler ?ctx ps data)) ?h2"
    by (rule handleMessage_dispatch [OF assms])
  from run_sends_trace [of "handler_sends (handler ?ctx ps data)" ?h2] obtain rest
    where "trace (run_sends (handler_sends (handler ?ctx ps data)) ?h2) = trace ?h2 @ rest"
      and w: "\<forall>e \<in> set rest. \<exists>w f. e = WsSend w f" by blast
  then have "trace (state_of (handleMessage h c ch ev data)) =
               trace h @ HandlerCall ev ?ctx ps data # rest"
    by (simp add: e)
  with w have "\<exists>rest. trace (state_of (handleMessage h c ch ev data)) =
                   trace h @ HandlerCall ev ?ctx ps data # rest \<and>
                 (\<forall>e \<in> set rest. \<exists>w f. e = WsSend w f)" by blast
  with e show ?thesis by simp
qed

theorem handler_context_has_sender_witness:
  "ws_message ex_hub 12 (Some (MsgIn ''chat/1'' ''typing'' ''{}'')) =
     Done (ex_hub\<lparr>
       bm_clients := (bm_clients ex_hub)(''c2'' \<mapsto>
          (ex_conn 12 ''c2'')\<lparr>ctxReady := Some (ex_ctx\<lparr>ctx_clientId := Some ''c2''\<rparr>)\<rparr>),
       trace := trace ex_hub @
         [HandlerCall ''typing'' (ex_ctx\<lparr>ctx_clientId := Some ''c2''\<rparr>) [''id'' \<mapsto> ''1''] ''{}'',
          WsSend 11 (Msg ''chat/1'' ''typing'' ''{}''),
          WsSend 13 (Msg ''chat/1'' ''typing'' ''{}'')]\<rparr>)"
proof -
  let ?c = "ex_conn 12 ''c2''"
  have m: "ws_message ex_hub 12 (Some (MsgIn ''chat/1'' ''typing'' ''{}'')) =
           catch_all (handleMessage ex_hub ?c ''chat/1'' ''typing'' ''{}'')"
    by (simp add: ws_message_def ex_hub_tables)
  have mt: "matchChannel (bm_channels ex_hub) ''chat/1'' = Some (ex_chat, [''id'' \<mapsto> ''1''])"
    by (simp only: ex_hub_tables match_chat_1)
  have hd: "[''typing'' \<mapsto> ex_typing] ''typing'' = Some ex_typing" by simp
  have pre: "''chat/1'' \<noteq> []" "''typing'' \<noteq> []" "''chat/1'' \<in> set (channels ?c)"
    by (simp_all add: ex_conn_fields)
  from handler_context_has_sender [OF pre mt ex_chat_fields(3) hd ex_conn_fields(4), of "''{}''"]
  have s: "state_of (handleMessage ex_hub ?c ''chat/1'' ''typing'' ''{}'') =
     run_sends (handler_sends (ex_typing (ex_ctx\<lparr>ctx_clientId := Some (clientId ?c)\<rparr>)
                  [''id'' \<mapsto> ''1''] ''{}''))
       (ex_hub\<lparr>bm_clients := (bm_clients ex_hub)(clientId ?c \<mapsto>
                    ?c\<lparr>ctxReady := Some (ex_ctx\<lparr>ctx_clientId := Some (clientId ?c)\<rparr>)\<rparr>),
                trace := trace ex_hub @
                  [HandlerCall ''typing'' (ex_ctx\<lparr>ctx_clientId := Some (clientId ?c)\<rparr>)
                     [''id'' \<mapsto> ''1''] ''{}'']\<rparr>)"
    by blast
  have st: "state_of (handleMessage ex_hub ?c ''chat/1'' ''typing'' ''{}'') =
     ex_hub\<lparr>
       bm_clients := (bm_clients ex_hub)(''c2'' \<mapsto>
          ?c\<lparr>ctxReady := Some (ex_ctx\<lparr>ctx_clientId := Some ''c2''\<rparr>)\<rparr>),
       trace := trace ex_hub @
         [HandlerCall ''typing'' (ex_ctx\<lparr>ctx_clientId := Some ''c2''\<rparr>) [''id'' \<mapsto> ''1''] ''{}'',
          WsSend 11 (Msg ''chat/1'' ''typing'' ''{}''),
          WsSend 13 (Msg ''chat/1'' ''typing'' ''{}'')]\<rparr>"
    unfolding s
    by (simp add: ex_conn_fields ex_sender_ctx handler_sends_def run_sends_def
          PendingBroadcast_send_def except_def to_def broadcastToChannel_eq ex_hub_tables
          ex_hub_recipients)
  have dn: "\<exists>h'. ws_message ex_hub 12 (Some (MsgIn ''chat/1'' ''typing'' ''{}'')) = Done h'"
    by (rule ws_message_Done)
  then obtain h' where h': "ws_message ex_hub 12 (Some (MsgIn ''chat/1'' ''typing'' ''{}'')) = Done h'" ..
  then have "h' = state_of (handleMessage ex_hub ?c ''chat/1'' ''typing'' ''{}'')"
    using m by (metis state_of.simps(1) state_of_catch_all)
  with h' st show ?thesis by simp
qed

end
